theory Spec2Isabelle
  imports
    Main
    "HOL-Library.Monad_Syntax"
    "HOL-Library.List_Lexorder"
    "HOL-Library.Product_Lexorder"
    "HOL-Library.Sublist"
begin

section \<open>Python strings\<close>

text \<open>
  A Python \<open>str\<close> is a sequence of Unicode code points, so it is modelled as a list of
  naturals; the order of \<open>HOL-Library.List_Lexorder\<close> on such lists is Python's
  string comparison.  \<open>ascii\<close> turns an Isabelle literal into such a string; the
  non-ASCII literals of the source are written as code points.
\<close>

type_synonym pystr = "nat list"

definition ascii :: "string \<Rightarrow> pystr" where
  "ascii cs = map of_char cs"

text \<open>\<open>str.isspace\<close> for one code point: the whitespace set of CPython's Unicode
  database, which \<open>str.strip\<close>, \<open>str.rstrip\<close> and the regular expression class
  \<open>\s\<close> all use.\<close>

definition isspace :: "nat \<Rightarrow> bool" where
  "isspace c \<longleftrightarrow>
     (9 \<le> c \<and> c \<le> 13) \<or> (28 \<le> c \<and> c \<le> 32) \<or> c = 133 \<or> c = 160 \<or> c = 5760 \<or>
     (8192 \<le> c \<and> c \<le> 8202) \<or> c = 8232 \<or> c = 8233 \<or> c = 8239 \<or> c = 8287 \<or> c = 12288"

text \<open>The line boundaries of \<open>str.splitlines\<close>.\<close>

definition is_linebreak :: "nat \<Rightarrow> bool" where
  "is_linebreak c \<longleftrightarrow>
     (10 \<le> c \<and> c \<le> 13) \<or> (28 \<le> c \<and> c \<le> 30) \<or> c = 133 \<or> c = 8232 \<or> c = 8233"

text \<open>
  The class \<open>\d\<close> of a \<open>str\<close> pattern and the builtin \<open>int\<close> accept every Unicode
  decimal digit, not only \<open>0\<close>..\<open>9\<close>.  Unicode keeps the decimal digits of a script in
  one run of ten consecutive code points in ascending value, so the table of the running
  interpreter is given by the code points of its zeros: the parameter \<open>zs\<close> lists the
  zeros other than ASCII \<open>0\<close> (code point 48), which is always one.
\<close>

fun decimal :: "nat list \<Rightarrow> nat \<Rightarrow> nat option" where
  "decimal [] c = (if 48 \<le> c \<and> c < 58 then Some (c - 48) else None)"
| "decimal (z # zs) c = (if z \<le> c \<and> c < z + 10 then Some (c - z) else decimal zs c)"

definition isdecimal :: "nat list \<Rightarrow> nat \<Rightarrow> bool" where
  "isdecimal zs c \<longleftrightarrow> decimal zs c \<noteq> None"

text \<open>\<open>int(s)\<close>.  The source applies it to groups of \<open>\d\<close> only, where it cannot
  raise; the value given to any other character is never used.\<close>

definition int_of_digits :: "nat list \<Rightarrow> pystr \<Rightarrow> nat" where
  "int_of_digits zs ds =
     foldl (\<lambda>n c. 10 * n + (case decimal zs c of Some d \<Rightarrow> d | None \<Rightarrow> 0)) 0 ds"

text \<open>\<open>str(n)\<close> for a non-negative integer, and the format specification \<open>0wd\<close>.\<close>

fun str_of_nat :: "nat \<Rightarrow> pystr" where
  "str_of_nat n = (if n < 10 then [48 + n] else str_of_nat (n div 10) @ [48 + n mod 10])"

declare str_of_nat.simps [simp del]

definition format_0d :: "nat \<Rightarrow> nat \<Rightarrow> pystr" where
  "format_0d w n = replicate (w - length (str_of_nat n)) 48 @ str_of_nat n"

definition lstrip :: "pystr \<Rightarrow> pystr" where
  "lstrip t = dropWhile isspace t"

definition rstrip :: "pystr \<Rightarrow> pystr" where
  "rstrip t = rev (dropWhile isspace (rev t))"

definition strip :: "pystr \<Rightarrow> pystr" where
  "strip t = rstrip (lstrip t)"

text \<open>\<open>sep.join(parts)\<close>.\<close>

fun join :: "pystr \<Rightarrow> pystr list \<Rightarrow> pystr" where
  "join sep [] = []"
| "join sep [p] = p"
| "join sep (p # q # ps) = p @ sep @ join sep (q # ps)"

text \<open>\<open>needle in haystack\<close> for strings.\<close>

fun contains :: "pystr \<Rightarrow> pystr \<Rightarrow> bool" where
  "contains [] needle = (needle = [])"
| "contains (c # cs) needle = (take (length needle) (c # cs) = needle \<or> contains cs needle)"

text \<open>\<open>s.startswith(p)\<close>.\<close>

definition startswith :: "pystr \<Rightarrow> pystr \<Rightarrow> bool" where
  "startswith t p \<longleftrightarrow> take (length p) t = p"

section \<open>Regular expressions of the source\<close>

text \<open>
  Each pattern of the source is written out as the matcher \<open>re\<close> runs for it.
  \<open>re_search\<close> is \<open>re.search\<close>: the leftmost position at which the pattern matches.
\<close>

fun re_search :: "(pystr \<Rightarrow> 'a option) \<Rightarrow> pystr \<Rightarrow> 'a option" where
  "re_search m [] = m []"
| "re_search m (c # cs) = (case m (c # cs) of Some r \<Rightarrow> Some r | None \<Rightarrow> re_search m cs)"

text \<open>\<open>\d{n}\<close> at the head of the string: the digits matched and the rest.\<close>

definition digits :: "nat list \<Rightarrow> nat \<Rightarrow> pystr \<Rightarrow> (pystr \<times> pystr) option" where
  "digits zs n t =
     (if n \<le> length t \<and> (\<forall>c \<in> set (take n t). isdecimal zs c)
      then Some (take n t, drop n t) else None)"

text \<open>A literal character at the head of the string.\<close>

fun lit :: "nat \<Rightarrow> pystr \<Rightarrow> pystr option" where
  "lit c [] = None"
| "lit c (x # xs) = (if x = c then Some xs else None)"

text \<open>
  \<open>^(\d{4})-(\d{2})-(\d{2})\s+(\d{2}:\d{2})$\<close> with \<open>re.match\<close>.  \<open>\s+\<close> is greedy
  and a digit is no whitespace, so the whole run of whitespace is consumed; \<open>$\<close>
  (without \<open>re.MULTILINE\<close>) holds at the end of the string and before a newline that
  ends the string.  The result is the four groups.
\<close>

definition match_datetime_local :: "nat list \<Rightarrow> pystr \<Rightarrow> (pystr \<times> pystr \<times> pystr \<times> pystr) option" where
  "match_datetime_local zs t =
     do {
       (g1, t1) \<leftarrow> digits zs 4 t;
       t2 \<leftarrow> lit 45 t1;
       (g2, t3) \<leftarrow> digits zs 2 t2;
       t4 \<leftarrow> lit 45 t3;
       (g3, t5) \<leftarrow> digits zs 2 t4;
       (if takeWhile isspace t5 = [] then None else
        do {
          (hh, t6) \<leftarrow> digits zs 2 (dropWhile isspace t5);
          t7 \<leftarrow> lit 58 t6;
          (mm, t8) \<leftarrow> digits zs 2 t7;
          (if t8 = [] \<or> t8 = [10] then Some (g1, g2, g3, hh @ [58] @ mm) else None)
        })
     }"

text \<open>
  \<open>(\d{1,2})M\s*(\d{1,2})D\s*(\d{4})\<close> at one position, where \<open>M\<close> stands
  for the character U+6708 (month) and \<open>D\<close> for U+65E5 (day) of the source's
  pattern.  \<open>\d{1,2}\<close> is greedy: two digits are tried first and one digit after that
  fails.  The result is the three groups.
\<close>

definition date_label_tail :: "nat list \<Rightarrow> pystr \<Rightarrow> pystr option" where
  "date_label_tail zs t = do { (g3, _) \<leftarrow> digits zs 4 (dropWhile isspace t); Some g3 }"

definition date_label_day :: "nat list \<Rightarrow> nat \<Rightarrow> pystr \<Rightarrow> (pystr \<times> pystr) option" where
  "date_label_day zs n t =
     do { (g2, t1) \<leftarrow> digits zs n t; t2 \<leftarrow> lit 26085 t1; g3 \<leftarrow> date_label_tail zs t2; Some (g2, g3) }"

definition date_label_month :: "nat list \<Rightarrow> nat \<Rightarrow> pystr \<Rightarrow> (pystr \<times> pystr \<times> pystr) option" where
  "date_label_month zs n t =
     do {
       (g1, t1) \<leftarrow> digits zs n t;
       t2 \<leftarrow> lit 26376 t1;
       (g2, g3) \<leftarrow> (case date_label_day zs 2 (dropWhile isspace t2) of
                      Some r \<Rightarrow> Some r
                    | None \<Rightarrow> date_label_day zs 1 (dropWhile isspace t2));
       Some (g1, g2, g3)
     }"

definition match_date_label :: "nat list \<Rightarrow> pystr \<Rightarrow> (pystr \<times> pystr \<times> pystr) option" where
  "match_date_label zs t =
     (case date_label_month zs 2 t of Some r \<Rightarrow> Some r | None \<Rightarrow> date_label_month zs 1 t)"

text \<open>\<open>(\d{1,2}):(\d{2})\<close> at one position.\<close>

definition time_label_hour :: "nat list \<Rightarrow> nat \<Rightarrow> pystr \<Rightarrow> (pystr \<times> pystr) option" where
  "time_label_hour zs n t =
     do { (g1, t1) \<leftarrow> digits zs n t; t2 \<leftarrow> lit 58 t1; (g2, _) \<leftarrow> digits zs 2 t2; Some (g1, g2) }"

definition match_time_label :: "nat list \<Rightarrow> pystr \<Rightarrow> (pystr \<times> pystr) option" where
  "match_time_label zs t =
     (case time_label_hour zs 2 t of Some r \<Rightarrow> Some r | None \<Rightarrow> time_label_hour zs 1 t)"

section \<open>Entries and date resolution\<close>

text \<open>The dataclass \<open>Entry\<close>; its fields \<open>id\<close> and \<open>text\<close> are \<open>entry_id\<close> and
  \<open>entry_text\<close> here, the source's names being taken in Isabelle.\<close>

record entry =
  entry_id :: pystr
  date_label :: pystr
  datetime_iso :: pystr
  datetime_local :: pystr
  time_label :: pystr
  title :: pystr
  entry_text :: pystr
  location :: pystr
  source_url :: pystr

text \<open>\<open>parse_entry_datetime_parts\<close>: \<open>(year, month, day, HH:MM)\<close>, or \<open>None\<close>.\<close>

definition parse_entry_datetime_parts :: "nat list \<Rightarrow> entry \<Rightarrow> (nat \<times> nat \<times> nat \<times> pystr) option" where
  "parse_entry_datetime_parts zs e =
     (case (if datetime_local e \<noteq> [] then match_datetime_local zs (datetime_local e) else None) of
        Some (g1, g2, g3, g4) \<Rightarrow>
          Some (int_of_digits zs g1, int_of_digits zs g2, int_of_digits zs g3, g4)
      | None \<Rightarrow>
          (case (re_search (match_date_label zs) (date_label e),
                 re_search (match_time_label zs) (time_label e)) of
             (Some (d1, d2, d3), Some (t1, t2)) \<Rightarrow>
               Some (int_of_digits zs d3, int_of_digits zs d1, int_of_digits zs d2,
                     format_0d 2 (int_of_digits zs t1) @ [58] @ format_0d 2 (int_of_digits zs t2))
           | _ \<Rightarrow> None))"

section \<open>The parsed page\<close>

text \<open>
  \<open>BeautifulSoup(html, "html.parser")\<close> is a library call; the parser is a parameter of
  the model and its result is a tree of tags and strings.  A tag carries its name, the
  list kept under its \<open>class\<close> attribute, its other attributes and its children.  A
  \<open>NavigableString\<close> is a string \<open>get_text\<close> collects (plain text and \<open>CData\<close>);
  an \<open>OtherString\<close> is one of the strings it passes over (\<open>Comment\<close>, the content of
  \<open>script\<close>, \<open>style\<close> and \<open>template\<close>, declarations).
\<close>

datatype node =
    Tag pystr "pystr list" "(pystr \<times> pystr) list" "node list"
  | NavigableString pystr
  | OtherString pystr

fun is_tag :: "pystr \<Rightarrow> node \<Rightarrow> bool" where
  "is_tag nm (Tag n cl at ch) = (n = nm)"
| "is_tag nm (NavigableString t) = False"
| "is_tag nm (OtherString t) = False"

fun classes :: "node \<Rightarrow> pystr list" where
  "classes (Tag n cl at ch) = cl"
| "classes (NavigableString t) = []"
| "classes (OtherString t) = []"

fun get_attr :: "node \<Rightarrow> pystr \<Rightarrow> pystr option" where
  "get_attr (Tag n cl at ch) k = map_of at k"
| "get_attr (NavigableString t) k = None"
| "get_attr (OtherString t) k = None"

fun children :: "node \<Rightarrow> node list" where
  "children (Tag n cl at ch) = ch"
| "children (NavigableString t) = []"
| "children (OtherString t) = []"

text \<open>The descendants of a node in document order, each with its chain of ancestors,
  the parent first; \<open>anc\<close> is the chain of the node itself.\<close>

fun descendants :: "node list \<Rightarrow> node \<Rightarrow> (node list \<times> node) list" where
  "descendants anc (NavigableString t) = []"
| "descendants anc (OtherString t) = []"
| "descendants anc (Tag n cl at ch) =
     concat (map (\<lambda>c. (Tag n cl at ch # anc, c) # descendants (Tag n cl at ch # anc) c) ch)"

text \<open>\<open>select_one\<close>: the first descendant that matches the selector.  A selector
  sees the ancestors of a candidate up to the document root, as CSS has it.\<close>

definition select_one :: "(node list \<Rightarrow> node \<Rightarrow> bool) \<Rightarrow> node list \<Rightarrow> node \<Rightarrow> (node list \<times> node) option" where
  "select_one sel anc n = find (\<lambda>(a, d). sel a d) (descendants anc n)"

text \<open>The selectors of the source.\<close>

definition sel_posts_list :: "node list \<Rightarrow> node \<Rightarrow> bool" where
  \<comment> \<open>\<open>ul.posts-list\<close>\<close>
  "sel_posts_list a d \<longleftrightarrow> is_tag (ascii ''ul'') d \<and> ascii ''posts-list'' \<in> set (classes d)"

definition sel_meta_timeago :: "node list \<Rightarrow> node \<Rightarrow> bool" where
  \<comment> \<open>\<open>div.meta a.timeago[href^='/a/']\<close>\<close>
  "sel_meta_timeago a d \<longleftrightarrow>
     is_tag (ascii ''a'') d \<and> ascii ''timeago'' \<in> set (classes d) \<and>
     (case get_attr d (ascii ''href'') of None \<Rightarrow> False | Some h \<Rightarrow> startswith h (ascii ''/a/'')) \<and>
     (\<exists>x \<in> set a. is_tag (ascii ''div'') x \<and> ascii ''meta'' \<in> set (classes x))"

definition sel_time_hours :: "node list \<Rightarrow> node \<Rightarrow> bool" where
  \<comment> \<open>\<open>time.hours\<close>\<close>
  "sel_time_hours a d \<longleftrightarrow> is_tag (ascii ''time'') d \<and> ascii ''hours'' \<in> set (classes d)"

definition sel_h4_a :: "node list \<Rightarrow> node \<Rightarrow> bool" where
  \<comment> \<open>\<open>h4 a\<close>\<close>
  "sel_h4_a a d \<longleftrightarrow> is_tag (ascii ''a'') d \<and> (\<exists>x \<in> set a. is_tag (ascii ''h4'') x)"

definition child_of_div_line :: "node list \<Rightarrow> bool" where
  "child_of_div_line a \<longleftrightarrow>
     (case a of [] \<Rightarrow> False
      | x # _ \<Rightarrow> is_tag (ascii ''div'') x \<and> ascii ''line'' \<in> set (classes x))"

definition sel_line_comment :: "node list \<Rightarrow> node \<Rightarrow> bool" where
  \<comment> \<open>\<open>div.line > div.comment\<close>\<close>
  "sel_line_comment a d \<longleftrightarrow>
     is_tag (ascii ''div'') d \<and> ascii ''comment'' \<in> set (classes d) \<and> child_of_div_line a"

definition sel_line_location :: "node list \<Rightarrow> node \<Rightarrow> bool" where
  \<comment> \<open>\<open>div.line > span.location\<close>\<close>
  "sel_line_location a d \<longleftrightarrow>
     is_tag (ascii ''span'') d \<and> ascii ''location'' \<in> set (classes d) \<and> child_of_div_line a"

text \<open>\<open>get_text(sep, strip=True)\<close>: the strings below the node that \<open>get_text\<close>
  collects, in document order, each stripped, the empty ones dropped, joined by the
  separator.\<close>

fun strings :: "node \<Rightarrow> pystr list" where
  "strings (NavigableString t) = [t]"
| "strings (OtherString t) = []"
| "strings (Tag n cl at ch) = concat (map strings ch)"

definition get_text :: "pystr \<Rightarrow> node \<Rightarrow> pystr" where
  "get_text sep n = join sep (filter (\<lambda>t. t \<noteq> []) (map strip (strings n)))"

text \<open>The loop \<open>for br in node.find_all("br"): br.replace_with("\n")\<close>: every \<open>br\<close>
  below the node gives way to a text node holding a newline.\<close>

fun replace_br :: "node \<Rightarrow> node" where
  "replace_br (NavigableString t) = NavigableString t"
| "replace_br (OtherString t) = OtherString t"
| "replace_br (Tag n cl at ch) =
     Tag n cl at (map (\<lambda>c. if is_tag (ascii ''br'') c then NavigableString [10] else replace_br c) ch)"

text \<open>
  The source changes the tree in place.  \<open>update_first\<close> rebuilds a tree with the first
  descendant that matches a selector replaced by its image under \<open>f\<close>, and
  \<open>extract_first\<close> rebuilds it without the first descendant that satisfies \<open>p\<close>
  (\<open>find\<close> followed by \<open>extract\<close>); both give \<open>None\<close> when nothing matches.
\<close>

fun update_first :: "(node list \<Rightarrow> node \<Rightarrow> bool) \<Rightarrow> (node \<Rightarrow> node) \<Rightarrow> node list \<Rightarrow> node \<Rightarrow> node option"
  and update_first_list :: "(node list \<Rightarrow> node \<Rightarrow> bool) \<Rightarrow> (node \<Rightarrow> node) \<Rightarrow> node list \<Rightarrow> node list \<Rightarrow> node list option" where
  "update_first sel f anc (NavigableString t) = None"
| "update_first sel f anc (OtherString t) = None"
| "update_first sel f anc (Tag n cl at ch) =
     map_option (Tag n cl at) (update_first_list sel f (Tag n cl at ch # anc) ch)"
| "update_first_list sel f anc [] = None"
| "update_first_list sel f anc (c # cs) =
     (if sel anc c then Some (f c # cs)
      else case update_first sel f anc c of
             Some c' \<Rightarrow> Some (c' # cs)
           | None \<Rightarrow> map_option ((#) c) (update_first_list sel f anc cs))"

fun extract_first :: "(node \<Rightarrow> bool) \<Rightarrow> node \<Rightarrow> node option"
  and extract_first_list :: "(node \<Rightarrow> bool) \<Rightarrow> node list \<Rightarrow> node list option" where
  "extract_first p (NavigableString t) = None"
| "extract_first p (OtherString t) = None"
| "extract_first p (Tag n cl at ch) = map_option (Tag n cl at) (extract_first_list p ch)"
| "extract_first_list p [] = None"
| "extract_first_list p (c # cs) =
     (if p c then Some cs
      else case extract_first p c of
             Some c' \<Rightarrow> Some (c' # cs)
           | None \<Rightarrow> map_option ((#) c) (extract_first_list p cs))"

section \<open>Text clean-up\<close>

text \<open>\<open>re.sub(r"\s+", " ", s)\<close>: every maximal run of whitespace becomes one space.\<close>

fun sub_spaces :: "pystr \<Rightarrow> pystr" where
  "sub_spaces [] = []"
| "sub_spaces [c] = (if isspace c then [32] else [c])"
| "sub_spaces (c # d # cs) =
     (if isspace c then (if isspace d then sub_spaces (d # cs) else 32 # sub_spaces (d # cs))
      else c # sub_spaces (d # cs))"

definition clean_text :: "pystr \<Rightarrow> pystr" where
  "clean_text t = strip (sub_spaces (map (\<lambda>c. if c = 160 then 32 else c) t))"

text \<open>\<open>str.splitlines\<close>: a line ends at a line boundary, \<open>\r\n\<close> counts as one
  boundary, and a boundary at the end of the string opens no further line.\<close>

function splitlines :: "pystr \<Rightarrow> pystr list" where
  "splitlines [] = []"
| "splitlines (c # cs) =
     takeWhile (\<lambda>x. \<not> is_linebreak x) (c # cs) #
     (case dropWhile (\<lambda>x. \<not> is_linebreak x) (c # cs) of
        [] \<Rightarrow> []
      | b # r \<Rightarrow> if b = 13 \<and> take 1 r = [10] then splitlines (drop 1 r) else splitlines r)"
  by pat_completeness auto
termination
proof (relation "measure length")
  fix c :: nat and cs b r
  assume "dropWhile (\<lambda>x. \<not> is_linebreak x) (c # cs) = b # r"
  then have "length (b # r) \<le> length (c # cs)"
    by (metis length_dropWhile_le)
  then show "(drop 1 r, c # cs) \<in> measure length" and "(r, c # cs) \<in> measure length"
    by simp_all
qed simp

text \<open>The loop of \<open>html_to_text_with_breaks\<close> that builds \<open>cleaned\<close>, one line a step.\<close>

definition append_line :: "pystr list \<Rightarrow> pystr \<Rightarrow> pystr list" where
  "append_line cleaned ln =
     (if ln = [] then (if cleaned \<noteq> [] \<and> last cleaned = [] then cleaned else cleaned @ [[]])
      else cleaned @ [ln])"

definition html_to_text_with_breaks :: "node \<Rightarrow> pystr" where
  "html_to_text_with_breaks node =
     (let text = get_text [10] (replace_br node);
          lines = map rstrip (splitlines text);
          cleaned = foldl append_line [] lines
      in strip (join [10] cleaned))"

text \<open>
  What the specification says of the text of an entry.  \<open>split_nl\<close> gives the lines of
  a text, \<open>str.split("\n")\<close>.  A text is \<open>normalized\<close> when each of its lines is
  right-trimmed, no two blank lines follow each other, and, unless it is empty, its
  first and its last line are not blank.  \<open>collapse_blank\<close> keeps of every run of
  blank lines the first one.
\<close>

fun split_nl :: "pystr \<Rightarrow> pystr list" where
  "split_nl [] = [[]]"
| "split_nl (c # cs) =
     (if c = 10 then [] # split_nl cs
      else (case split_nl cs of [] \<Rightarrow> [[c]] | ln # lns \<Rightarrow> (c # ln) # lns))"

fun adjacent_blank :: "pystr list \<Rightarrow> bool" where
  "adjacent_blank (a # b # lns) = ((a = [] \<and> b = []) \<or> adjacent_blank (b # lns))"
| "adjacent_blank lns = False"

definition normalized :: "pystr \<Rightarrow> bool" where
  "normalized t \<longleftrightarrow>
     (\<forall>ln \<in> set (split_nl t). rstrip ln = ln) \<and>
     \<not> adjacent_blank (split_nl t) \<and>
     (t \<noteq> [] \<longrightarrow> hd (split_nl t) \<noteq> [] \<and> last (split_nl t) \<noteq> [])"

fun collapse_blank :: "pystr list \<Rightarrow> pystr list" where
  "collapse_blank (a # b # lns) =
     (if a = [] \<and> b = [] then collapse_blank (b # lns) else a # collapse_blank (b # lns))"
| "collapse_blank lns = lns"

section \<open>Extraction of the entries of one page\<close>

definition BASE :: pystr where
  "BASE = ascii ''https://icity.ly''"

definition isalnum_ascii :: "nat \<Rightarrow> bool" where
  \<comment> \<open>the class \<open>[A-Za-z0-9]\<close>\<close>
  "isalnum_ascii c \<longleftrightarrow> (65 \<le> c \<and> c \<le> 90) \<or> (97 \<le> c \<and> c \<le> 122) \<or> (48 \<le> c \<and> c \<le> 57)"

text \<open>\<open>/a/([A-Za-z0-9]+)\<close> at one position; the result is the group.\<close>

definition match_entry_id :: "pystr \<Rightarrow> pystr option" where
  "match_entry_id t =
     (if startswith t (ascii ''/a/'') \<and> takeWhile isalnum_ascii (drop 3 t) \<noteq> []
      then Some (takeWhile isalnum_ascii (drop 3 t)) else None)"

text \<open>\<open>tag.get(key, "")\<close>.\<close>

definition get_or_empty :: "node \<Rightarrow> pystr \<Rightarrow> pystr" where
  "get_or_empty n k = (case get_attr n k of Some v \<Rightarrow> v | None \<Rightarrow> [])"

text \<open>
  The body of the loop of \<open>extract_entries_from_page\<close> for a list item of class
  \<open>diary\<close>: \<open>None\<close> where the source skips the item.  \<open>urljoin\<close> is the library
  function, a parameter.  The location is read after \<open>html_to_text_with_breaks\<close> has
  changed the comment node in place, hence from \<open>li'\<close>.
\<close>

definition entry_of_li :: "(pystr \<Rightarrow> pystr \<Rightarrow> pystr) \<Rightarrow> node list \<Rightarrow> pystr \<Rightarrow> node \<Rightarrow> entry option" where
  "entry_of_li urljoin anc current_date li =
     (case select_one sel_meta_timeago anc li of
        None \<Rightarrow> None
      | Some (a_anc, meta_time_a) \<Rightarrow>
          let href = get_or_empty meta_time_a (ascii ''href'');
              time_tag = select_one sel_time_hours a_anc meta_time_a;
              title_node = select_one sel_h4_a anc li;
              comment_node = select_one sel_line_comment anc li;
              li' = (case update_first sel_line_comment replace_br anc li of
                       Some changed \<Rightarrow> changed | None \<Rightarrow> li);
              location_node = select_one sel_line_location anc li'
          in Some \<lparr>
               entry_id = (case re_search match_entry_id href of Some g \<Rightarrow> g | None \<Rightarrow> href),
               date_label = current_date,
               datetime_iso =
                 (case time_tag of Some (_, t) \<Rightarrow> get_or_empty t (ascii ''datetime'') | None \<Rightarrow> []),
               datetime_local =
                 (case time_tag of Some (_, t) \<Rightarrow> get_or_empty t (ascii ''title'') | None \<Rightarrow> []),
               time_label =
                 (case time_tag of Some (_, t) \<Rightarrow> clean_text (get_text [32] t) | None \<Rightarrow> []),
               title =
                 (case title_node of Some (_, t) \<Rightarrow> clean_text (get_text [32] t) | None \<Rightarrow> []),
               entry_text =
                 (case comment_node of Some (_, c) \<Rightarrow> html_to_text_with_breaks c | None \<Rightarrow> []),
               location =
                 (case location_node of
                    None \<Rightarrow> []
                  | Some (_, l) \<Rightarrow>
                      clean_text (get_text [32]
                        (case extract_first (is_tag (ascii ''i'')) l of
                           Some without_icon \<Rightarrow> without_icon | None \<Rightarrow> l))),
               source_url = urljoin BASE href
             \<rparr>)"

text \<open>The loop over the direct \<open>li\<close> children, with \<open>current_date\<close> and \<open>entries\<close>
  as its state.  U+EA0A is the glyph the source replaces by a space.\<close>

fun extract_loop :: "(pystr \<Rightarrow> pystr \<Rightarrow> pystr) \<Rightarrow> node list \<Rightarrow> node list \<Rightarrow> pystr \<Rightarrow> entry list \<Rightarrow> entry list" where
  "extract_loop urljoin anc [] current_date entries = entries"
| "extract_loop urljoin anc (li # lis) current_date entries =
     (if ascii ''day-cut'' \<in> set (classes li) then
        extract_loop urljoin anc lis
          (clean_text (map (\<lambda>c. if c = 59914 then 32 else c) (get_text [32] li))) entries
      else if ascii ''diary'' \<notin> set (classes li) then
        extract_loop urljoin anc lis current_date entries
      else
        (case entry_of_li urljoin anc current_date li of
           None \<Rightarrow> extract_loop urljoin anc lis current_date entries
         | Some e \<Rightarrow> extract_loop urljoin anc lis current_date (entries @ [e])))"

definition extract_entries_from_page :: "(pystr \<Rightarrow> node) \<Rightarrow> (pystr \<Rightarrow> pystr \<Rightarrow> pystr) \<Rightarrow> pystr \<Rightarrow> entry list" where
  "extract_entries_from_page BeautifulSoup urljoin html =
     (case select_one sel_posts_list [] (BeautifulSoup html) of
        None \<Rightarrow> []
      | Some (anc, posts_list) \<Rightarrow>
          extract_loop urljoin (posts_list # anc)
            (filter (is_tag (ascii ''li'')) (children posts_list)) [] [])"

section \<open>Fetching all pages\<close>

definition is_login_page :: "pystr \<Rightarrow> bool" where
  "is_login_page html \<longleftrightarrow>
     contains html [24320, 22987, 20351, 29992, 32593, 39029, 29256] \<and>
     contains html ([29992, 25143, 21517] @ ascii '' / Email'') \<and>
     contains html [30331, 20837]"

text \<open>
  The errors a run can end with: a failed request (\<open>session.get\<close> or
  \<open>raise_for_status\<close> raising \<open>requests.RequestException\<close>), the \<open>RuntimeError\<close> of
  \<open>scrape_all\<close>, whose message carries the page number, the \<open>RuntimeError\<close> of
  \<open>main\<close> for an empty result, a failed file operation, and text that the UTF-8 writer
  of an output file refuses.
\<close>

datatype error = RequestException | SessionExpired nat | NoEntries | OSError | UnicodeEncodeError

definition page_url :: "pystr \<Rightarrow> nat \<Rightarrow> pystr" where
  "page_url posts_url page =
     (if page = 1 then posts_url else posts_url @ ascii ''?page='' @ str_of_nat page)"

definition max_pages_reached :: "int option \<Rightarrow> nat \<Rightarrow> bool" where
  \<comment> \<open>\<open>max_pages is not None and page >= max_pages\<close>\<close>
  "max_pages_reached max_pages page \<longleftrightarrow>
     (case max_pages of None \<Rightarrow> False | Some m \<Rightarrow> int page \<ge> m)"

text \<open>
  The \<open>while True\<close> loop of \<open>scrape_all\<close>.  The session is the function from the URL
  requested to the body of the response, \<open>None\<close> where the request fails.  The state
  is the page counter and \<open>all_entries\<close>; \<open>requested\<close> records the URLs asked for, in
  order.  The loop need not end, so the function is partial: \<open>None\<close> is a run that
  never returns.  The progress line printed and the pause between requests are left out.
\<close>

partial_function (option) scrape_loop ::
  "(pystr \<Rightarrow> node) \<Rightarrow> (pystr \<Rightarrow> pystr \<Rightarrow> pystr) \<Rightarrow> (pystr \<Rightarrow> pystr option) \<Rightarrow> pystr \<Rightarrow> int option \<Rightarrow>
   nat \<Rightarrow> entry list \<Rightarrow> pystr list \<Rightarrow> ((error + entry list) \<times> pystr list) option" where
  "scrape_loop BeautifulSoup urljoin session posts_url max_pages page all_entries requested =
     (case session (page_url posts_url page) of
        None \<Rightarrow> Some (Inl RequestException, requested @ [page_url posts_url page])
      | Some html \<Rightarrow>
          if is_login_page html then
            Some (Inl (SessionExpired page), requested @ [page_url posts_url page])
          else if extract_entries_from_page BeautifulSoup urljoin html = [] then
            Some (Inr all_entries, requested @ [page_url posts_url page])
          else if max_pages_reached max_pages page then
            Some (Inr (all_entries @ extract_entries_from_page BeautifulSoup urljoin html),
                  requested @ [page_url posts_url page])
          else
            scrape_loop BeautifulSoup urljoin session posts_url max_pages (page + 1)
              (all_entries @ extract_entries_from_page BeautifulSoup urljoin html)
              (requested @ [page_url posts_url page]))"

declare scrape_loop.simps [code]

text \<open>The loop that removes duplicates, with \<open>seen\<close> and \<open>deduped\<close> as its state.\<close>

fun dedup_loop :: "entry list \<Rightarrow> pystr set \<Rightarrow> entry list \<Rightarrow> entry list" where
  "dedup_loop [] seen deduped = deduped"
| "dedup_loop (e # es) seen deduped =
     (if entry_id e \<in> seen then dedup_loop es seen deduped
      else dedup_loop es (insert (entry_id e) seen) (deduped @ [e]))"

definition scrape_all ::
  "(pystr \<Rightarrow> node) \<Rightarrow> (pystr \<Rightarrow> pystr \<Rightarrow> pystr) \<Rightarrow> (pystr \<Rightarrow> pystr option) \<Rightarrow> pystr \<Rightarrow> int option \<Rightarrow>
   ((error + entry list) \<times> pystr list) option" where
  "scrape_all BeautifulSoup urljoin session posts_url max_pages =
     (case scrape_loop BeautifulSoup urljoin session posts_url max_pages 1 [] [] of
        None \<Rightarrow> None
      | Some (Inl err, requested) \<Rightarrow> Some (Inl err, requested)
      | Some (Inr all_entries, requested) \<Rightarrow> Some (Inr (dedup_loop all_entries {} []), requested))"

text \<open>What a run is described by in the theorems: the entries of the page a URL gives,
  whether a URL gives a page that passes the login check, and whether it gives one
  that fails it.\<close>

definition url_entries :: "(pystr \<Rightarrow> node) \<Rightarrow> (pystr \<Rightarrow> pystr \<Rightarrow> pystr) \<Rightarrow> (pystr \<Rightarrow> pystr option) \<Rightarrow> pystr \<Rightarrow> entry list" where
  "url_entries BeautifulSoup urljoin session url =
     (case session url of
        None \<Rightarrow> []
      | Some html \<Rightarrow> extract_entries_from_page BeautifulSoup urljoin html)"

definition page_ok :: "(pystr \<Rightarrow> pystr option) \<Rightarrow> pystr \<Rightarrow> bool" where
  "page_ok session url = (case session url of None \<Rightarrow> False | Some html \<Rightarrow> \<not> is_login_page html)"

definition page_expired :: "(pystr \<Rightarrow> pystr option) \<Rightarrow> pystr \<Rightarrow> bool" where
  "page_expired session url = (case session url of None \<Rightarrow> False | Some html \<Rightarrow> is_login_page html)"

text \<open>The entries of a list that are the first to carry their id, in the order of the
  list: those at a position before which the id does not occur.\<close>

definition first_occurrences :: "entry list \<Rightarrow> entry list" where
  "first_occurrences es =
     map (\<lambda>i. es ! i)
       (filter (\<lambda>i. entry_id (es ! i) \<notin> entry_id ` set (take i es)) [0..<length es])"

section \<open>Files\<close>

text \<open>
  A path is the list of its components and the file system maps a path to what is
  there: a directory or a file with its content.  The empty path is the directory the
  paths are relative to.  A JSON file holds the value \<open>json.dump\<close> was given, a text
  file the string written; \<open>Truncated\<close> is a file left with some part only of what was
  to be written.  Two kinds of failure are modelled: those that depend on what the tree
  holds, all \<open>OSError\<close>, and \<open>UnicodeEncodeError\<close>, raised when the text holds a
  surrogate code point (U+D800 to U+DFFF), which UTF-8 cannot encode.
\<close>

type_synonym path = "pystr list"

datatype json = JString pystr | JObject "(pystr \<times> json) list" | JArray "json list"

datatype fsnode = Dir | TextFile pystr | JsonFile json | Truncated

type_synonym filesystem = "path \<Rightarrow> fsnode option"

definition is_dir :: "filesystem \<Rightarrow> path \<Rightarrow> bool" where
  "is_dir fs p \<longleftrightarrow> p = [] \<or> fs p = Some Dir"

definition path_exists :: "filesystem \<Rightarrow> path \<Rightarrow> bool" where
  \<comment> \<open>\<open>os.path.exists\<close>\<close>
  "path_exists fs p \<longleftrightarrow> p = [] \<or> fs p \<noteq> None"

definition rmtree :: "filesystem \<Rightarrow> path \<Rightarrow> error + filesystem" where
  \<comment> \<open>\<open>shutil.rmtree\<close>: the directory and all below it\<close>
  "rmtree fs p =
     (if is_dir fs p then Inr (\<lambda>q. if prefix p q then None else fs q) else Inl OSError)"

definition makedirs :: "filesystem \<Rightarrow> path \<Rightarrow> error + filesystem" where
  \<comment> \<open>\<open>os.makedirs(p, exist_ok=True)\<close>\<close>
  "makedirs fs p =
     (if \<forall>q \<in> set (prefixes p). fs q = None \<or> is_dir fs q
      then Inr (\<lambda>q. if q \<in> set (prefixes p) \<and> q \<noteq> [] then Some Dir else fs q)
      else Inl OSError)"

definition encodable :: "pystr \<Rightarrow> bool" where
  "encodable t \<longleftrightarrow> (\<forall>c \<in> set t. c < 55296 \<or> 57343 < c)"

text \<open>The strings of a JSON value: with \<open>ensure_ascii=False\<close> each of them reaches the
  writer with its characters as they are.\<close>

fun json_strings :: "json \<Rightarrow> pystr list" where
  "json_strings (JString t) = [t]"
| "json_strings (JObject kvs) = map fst kvs @ concat (map (\<lambda>kv. json_strings (snd kv)) kvs)"
| "json_strings (JArray vs) = concat (map json_strings vs)"

fun content_encodable :: "fsnode \<Rightarrow> bool" where
  "content_encodable (TextFile t) = encodable t"
| "content_encodable (JsonFile j) = (\<forall>t \<in> set (json_strings j). encodable t)"
| "content_encodable Dir = True"
| "content_encodable Truncated = True"

definition write_file :: "filesystem \<Rightarrow> path \<Rightarrow> fsnode \<Rightarrow> filesystem \<times> (error + unit)" where
  \<comment> \<open>\<open>open(p, "w", encoding="utf-8")\<close> and the writes up to the end of the \<open>with\<close> block\<close>
  "write_file fs p content =
     (if p = [] \<or> \<not> is_dir fs (butlast p) \<or> is_dir fs p then (fs, Inl OSError)
      else if content_encodable content then (fs(p \<mapsto> content), Inr ())
      else (fs(p \<mapsto> Truncated), Inl UnicodeEncodeError))"

section \<open>The Markdown files, one per day\<close>

definition format_entry_markdown :: "entry \<Rightarrow> pystr \<Rightarrow> pystr" where
  "format_entry_markdown e hm =
     join [10]
       ([if title e \<noteq> [] then ascii ''## '' @ hm @ ascii '' - '' @ title e
         else ascii ''## '' @ hm,
         [],
         ascii ''- ID: '' @ [96] @ entry_id e @ [96]] @
        (if location e \<noteq> [] then [[45, 32, 22320, 28857, 58, 32] @ location e] else []) @
        [[45, 32, 38142, 25509, 58, 32] @ source_url e,
         [],
         strip (entry_text e),
         []])"

type_synonym day_key = "nat \<times> nat \<times> nat"

type_synonym day_items = "(pystr \<times> entry) list"

text \<open>\<open>grouped.setdefault(key, []).append(item)\<close> on a dictionary kept as the list of
  its items in insertion order.\<close>

fun setdefault_append :: "(day_key \<times> day_items) list \<Rightarrow> day_key \<Rightarrow> pystr \<times> entry \<Rightarrow> (day_key \<times> day_items) list" where
  "setdefault_append [] key item = [(key, [item])]"
| "setdefault_append ((k, items) # grouped) key item =
     (if k = key then (k, items @ [item]) # grouped
      else (k, items) # setdefault_append grouped key item)"

text \<open>The first loop of \<open>write_split_markdown\<close>.\<close>

fun group_entries :: "nat list \<Rightarrow> entry list \<Rightarrow> (day_key \<times> day_items) list \<Rightarrow> (day_key \<times> day_items) list" where
  "group_entries zs [] grouped = grouped"
| "group_entries zs (e # es) grouped =
     (case parse_entry_datetime_parts zs e of
        None \<Rightarrow> group_entries zs es grouped
      | Some (year, month, day, hm) \<Rightarrow>
          group_entries zs es (setdefault_append grouped (year, month, day) (hm, e)))"

definition day_name :: "day_key \<Rightarrow> pystr" where
  \<comment> \<open>\<open>f"{year_s}-{month_s}-{day_s}"\<close>\<close>
  "day_name key =
     (case key of (year, month, day) \<Rightarrow>
        format_0d 4 year @ [45] @ format_0d 2 month @ [45] @ format_0d 2 day)"

definition day_dir :: "path \<Rightarrow> day_key \<Rightarrow> path" where
  "day_dir md_root_dir key =
     (case key of (year, month, day) \<Rightarrow> md_root_dir @ [format_0d 4 year, format_0d 2 month])"

definition day_file :: "path \<Rightarrow> day_key \<Rightarrow> path" where
  "day_file md_root_dir key = day_dir md_root_dir key @ [day_name key @ ascii ''.md'']"

text \<open>What the source writes into a day's file, \<open>items\<close> being sorted already.\<close>

definition day_file_text :: "day_key \<Rightarrow> day_items \<Rightarrow> pystr" where
  "day_file_text key items =
     ascii ''# '' @ day_name key @ [10, 10] @
     [62, 32, 20849, 32] @ str_of_nat (length items) @ [32, 26465, 26085, 35760, 10, 10] @
     concat (map (\<lambda>(idx, (hm, e)).
                    format_entry_markdown e hm @
                    (if int idx < int (length items) - 1 then ascii ''---'' @ [10, 10] else []))
                 (enumerate 0 items))"

text \<open>The second loop of \<open>write_split_markdown\<close>, over \<open>sorted(grouped.items())\<close>; the
  state is the file system and \<open>file_count\<close>.\<close>

fun write_days :: "path \<Rightarrow> (day_key \<times> day_items) list \<Rightarrow> filesystem \<Rightarrow> nat \<Rightarrow> filesystem \<times> (error + nat)" where
  "write_days md_root_dir [] fs file_count = (fs, Inr file_count)"
| "write_days md_root_dir ((key, items) # rest) fs file_count =
     (case makedirs fs (day_dir md_root_dir key) of
        Inl err \<Rightarrow> (fs, Inl err)
      | Inr fs1 \<Rightarrow>
          (case write_file fs1 (day_file md_root_dir key)
                  (TextFile (day_file_text key (sort_key fst items))) of
             (fs2, Inl err) \<Rightarrow> (fs2, Inl err)
           | (fs2, Inr _) \<Rightarrow> write_days md_root_dir rest fs2 (file_count + 1)))"

definition write_split_markdown :: "nat list \<Rightarrow> entry list \<Rightarrow> path \<Rightarrow> filesystem \<Rightarrow> filesystem \<times> (error + nat)" where
  "write_split_markdown zs entries md_root_dir fs =
     (case (if path_exists fs md_root_dir then rmtree fs md_root_dir else Inr fs) of
        Inl err \<Rightarrow> (fs, Inl err)
      | Inr fs1 \<Rightarrow>
          (case makedirs fs1 md_root_dir of
             Inl err \<Rightarrow> (fs1, Inl err)
           | Inr fs2 \<Rightarrow> write_days md_root_dir (sort_key fst (group_entries zs entries [])) fs2 0))"

section \<open>The JSON and text files\<close>

definition asdict :: "entry \<Rightarrow> json" where
  "asdict e =
     JObject
       [(ascii ''id'', JString (entry_id e)),
        (ascii ''date_label'', JString (date_label e)),
        (ascii ''datetime_iso'', JString (datetime_iso e)),
        (ascii ''datetime_local'', JString (datetime_local e)),
        (ascii ''time_label'', JString (time_label e)),
        (ascii ''title'', JString (title e)),
        (ascii ''text'', JString (entry_text e)),
        (ascii ''location'', JString (location e)),
        (ascii ''source_url'', JString (source_url e))]"

text \<open>The writes of one round of the loop of \<open>write_outputs\<close>; \<open>idx\<close> counts from 1.\<close>

definition txt_block :: "nat \<Rightarrow> entry \<Rightarrow> pystr" where
  "txt_block idx e =
     ascii ''#'' @ str_of_nat idx @ ascii ''  ID: '' @ entry_id e @ [10] @
     (if datetime_local e \<noteq> [] then ascii ''DateTime: '' @ datetime_local e @ [10]
      else if date_label e \<noteq> [] \<or> time_label e \<noteq> [] then
        strip (ascii ''DateTime: '' @ date_label e @ [32] @ time_label e) @ [10]
      else []) @
     (if title e \<noteq> [] then ascii ''Title: '' @ title e @ [10] else []) @
     (if location e \<noteq> [] then ascii ''Location: '' @ location e @ [10] else []) @
     ascii ''URL: '' @ source_url e @ [10] @
     ascii ''Text:'' @ [10] @
     strip (entry_text e) @ [10] @
     replicate 80 45 @ [10, 10]"

definition txt_blocks :: "entry list \<Rightarrow> pystr list" where
  "txt_blocks entries = map (\<lambda>(i, e). txt_block i e) (enumerate 1 entries)"

definition txt_header :: "entry list \<Rightarrow> pystr" where
  "txt_header entries =
     ascii ''iCity Diary Export (text)'' @ [10] @
     ascii ''Total entries: '' @ str_of_nat (length entries) @ [10] @
     replicate 80 61 @ [10, 10]"

definition json_document :: "entry list \<Rightarrow> json" where
  \<comment> \<open>\<open>[asdict(e) for e in entries]\<close>\<close>
  "json_document entries = JArray (map asdict entries)"

definition write_outputs :: "entry list \<Rightarrow> path \<Rightarrow> path \<Rightarrow> filesystem \<Rightarrow> filesystem \<times> (error + unit)" where
  "write_outputs entries json_path txt_path fs =
     (case write_file fs json_path (JsonFile (json_document entries)) of
        (fs1, Inl err) \<Rightarrow> (fs1, Inl err)
      | (fs1, Inr _) \<Rightarrow>
          write_file fs1 txt_path (TextFile (txt_header entries @ concat (txt_blocks entries))))"

section \<open>The run\<close>

text \<open>
  The \<open>try\<close> block of \<open>main\<close> from the call of \<open>scrape_all\<close> on, the login before it
  having succeeded.  The result is the file system the run leaves, the error caught or
  the entries with the number of Markdown files, and the URLs requested; \<open>main\<close>
  returns 1 on an error and 0 otherwise.
\<close>

definition main_export ::
  "nat list \<Rightarrow> (pystr \<Rightarrow> node) \<Rightarrow> (pystr \<Rightarrow> pystr \<Rightarrow> pystr) \<Rightarrow> (pystr \<Rightarrow> pystr option) \<Rightarrow> pystr \<Rightarrow> int option \<Rightarrow>
   bool \<Rightarrow> path \<Rightarrow> path \<Rightarrow> path \<Rightarrow> filesystem \<Rightarrow>
   (filesystem \<times> (error + entry list \<times> nat) \<times> pystr list) option" where
  "main_export zs BeautifulSoup urljoin session posts_url max_pages split_md
       json_path txt_path md_root_dir fs =
     (case scrape_all BeautifulSoup urljoin session posts_url max_pages of
        None \<Rightarrow> None
      | Some (Inl err, requested) \<Rightarrow> Some (fs, Inl err, requested)
      | Some (Inr entries, requested) \<Rightarrow>
          if entries = [] then Some (fs, Inl NoEntries, requested)
          else
            (case write_outputs entries json_path txt_path fs of
               (fs1, Inl err) \<Rightarrow> Some (fs1, Inl err, requested)
             | (fs1, Inr _) \<Rightarrow>
                 if split_md then
                   (case write_split_markdown zs entries md_root_dir fs1 of
                      (fs2, Inl err) \<Rightarrow> Some (fs2, Inl err, requested)
                    | (fs2, Inr md_file_count) \<Rightarrow> Some (fs2, Inr (entries, md_file_count), requested))
                 else Some (fs1, Inr (entries, 0), requested)))"

definition exit_code :: "(error + 'a) \<Rightarrow> int" where
  "exit_code r = (case r of Inl _ \<Rightarrow> 1 | Inr _ \<Rightarrow> 0)"

section \<open>Example data\<close>

text \<open>Entries, pages and a session on which the theorems below are run.\<close>

definition example_entry :: "pystr \<Rightarrow> pystr \<Rightarrow> pystr \<Rightarrow> pystr \<Rightarrow> entry" where
  "example_entry i dl d t =
     \<lparr>entry_id = i, date_label = d, datetime_iso = [], datetime_local = dl, time_label = t,
      title = [], entry_text = [], location = [], source_url = BASE @ ascii ''/a/'' @ i\<rparr>"

definition label_5_march :: pystr where
  \<comment> \<open>the heading for 5 March 2026: \<open>3\<close>, U+6708, \<open>5\<close>, U+65E5, \<open>2026\<close>\<close>
  "label_5_march = [51, 26376, 53, 26085, 50, 48, 50, 54]"

definition label_7_june :: pystr where
  \<comment> \<open>the heading for 7 June 2027\<close>
  "label_7_june = [54, 26376, 55, 26085, 50, 48, 50, 55]"

text \<open>A list item of class \<open>diary\<close> with the link \<open>/a/i\<close> and nothing else, a document
  with such items, a parser that knows three pages, the page the login check looks
  for, and two sessions: one that ends with an empty third page, and one whose second
  page is the login page.\<close>

definition example_li :: "pystr \<Rightarrow> node" where
  "example_li i =
     Tag (ascii ''li'') [ascii ''diary''] []
       [Tag (ascii ''div'') [ascii ''meta''] []
          [Tag (ascii ''a'') [ascii ''timeago''] [(ascii ''href'', ascii ''/a/'' @ i)] []]]"

definition example_document :: "pystr list \<Rightarrow> node" where
  "example_document ids =
     Tag (ascii ''[document]'') [] []
       [Tag (ascii ''ul'') [ascii ''posts-list''] [] (map example_li ids)]"

definition example_soup :: "pystr \<Rightarrow> node" where
  "example_soup html =
     example_document
       (if html = ascii ''p1'' then [ascii ''a1'', ascii ''a2'']
        else if html = ascii ''p2'' then [ascii ''a2'', ascii ''a3'']
        else [])"

definition login_html :: pystr where
  "login_html =
     [24320, 22987, 20351, 29992, 32593, 39029, 29256] @
     [29992, 25143, 21517] @ ascii '' / Email'' @ [30331, 20837]"

definition example_session :: "pystr \<Rightarrow> pystr option" where
  "example_session url =
     (if url = ascii ''u'' then Some (ascii ''p1'')
      else if url = ascii ''u?page=2'' then Some (ascii ''p2'')
      else if url = ascii ''u?page=3'' then Some (ascii ''p3'')
      else None)"

definition expired_session :: "pystr \<Rightarrow> pystr option" where
  "expired_session url =
     (if url = ascii ''u'' then Some (ascii ''p1'')
      else if url = ascii ''u?page=2'' then Some login_html
      else None)"

text \<open>A parser whose document has one item, with the link \<open>/a/-\<close> and a comment that
  holds the page text twice with a \<open>br\<close> between, and a text to run it on.\<close>

definition comment_soup :: "pystr \<Rightarrow> node" where
  "comment_soup html =
     Tag (ascii ''[document]'') [] []
       [Tag (ascii ''ul'') [ascii ''posts-list''] []
          [Tag (ascii ''li'') [ascii ''diary''] []
             [Tag (ascii ''div'') [ascii ''meta''] []
                [Tag (ascii ''a'') [ascii ''timeago''] [(ascii ''href'', ascii ''/a/-'')] []],
              Tag (ascii ''div'') [ascii ''line''] []
                [Tag (ascii ''div'') [ascii ''comment''] []
                   [NavigableString html, Tag (ascii ''br'') [] [] [], NavigableString html]]]]]"

definition example_text :: pystr where
  "example_text = ascii '' a  '' @ [10, 32, 13, 10, 10] @ ascii ''  b ''"

section \<open>Date resolution (C2, C10)\<close>

lemma match_datetime_local_nonempty:
  "match_datetime_local zs t = Some r \<Longrightarrow> t \<noteq> []"
  by (auto simp: match_datetime_local_def digits_def)

text \<open>
  \<^bold>\<open>C2.\<close>  Date resolution has two tiers.  When \<open>datetime_local\<close> matches the pattern
  of tier 1 (the source's anchored expression: four digits, \<open>-\<close>, two digits, \<open>-\<close>, two
  digits, whitespace, two digits, \<open>:\<close>, two digits), the result is read from it, whatever
  the labels hold.  When it does not, and \<open>date_label\<close> contains the month-day-year
  pattern and \<open>time_label\<close> the hour-minute pattern, the result combines the two, hour and
  minute padded with zeros to two digits.  When tier 1 does not match and one of the two
  label patterns is absent, the date is unresolved.
\<close>

theorem date_resolution_two_tiers:
  "(match_datetime_local zs (datetime_local e) = Some (g1, g2, g3, g4) \<longrightarrow>
      parse_entry_datetime_parts zs e =
        Some (int_of_digits zs g1, int_of_digits zs g2, int_of_digits zs g3, g4)) \<and>
   (match_datetime_local zs (datetime_local e) = None \<longrightarrow>
    re_search (match_date_label zs) (date_label e) = Some (d1, d2, d3) \<longrightarrow>
    re_search (match_time_label zs) (time_label e) = Some (t1, t2) \<longrightarrow>
      parse_entry_datetime_parts zs e =
        Some (int_of_digits zs d3, int_of_digits zs d1, int_of_digits zs d2,
              format_0d 2 (int_of_digits zs t1) @ [58] @ format_0d 2 (int_of_digits zs t2))) \<and>
   (match_datetime_local zs (datetime_local e) = None \<longrightarrow>
    (re_search (match_date_label zs) (date_label e) = None \<or>
     re_search (match_time_label zs) (time_label e) = None) \<longrightarrow>
      parse_entry_datetime_parts zs e = None)"
proof (intro conjI impI)
  assume m: "match_datetime_local zs (datetime_local e) = Some (g1, g2, g3, g4)"
  then have "datetime_local e \<noteq> []"
    by (rule match_datetime_local_nonempty)
  with m show "parse_entry_datetime_parts zs e =
      Some (int_of_digits zs g1, int_of_digits zs g2, int_of_digits zs g3, g4)"
    by (simp add: parse_entry_datetime_parts_def)
next
  assume "match_datetime_local zs (datetime_local e) = None"
    and "re_search (match_date_label zs) (date_label e) = Some (d1, d2, d3)"
    and "re_search (match_time_label zs) (time_label e) = Some (t1, t2)"
  then show "parse_entry_datetime_parts zs e =
      Some (int_of_digits zs d3, int_of_digits zs d1, int_of_digits zs d2,
            format_0d 2 (int_of_digits zs t1) @ [58] @ format_0d 2 (int_of_digits zs t2))"
    by (simp add: parse_entry_datetime_parts_def)
next
  assume "match_datetime_local zs (datetime_local e) = None"
    and "re_search (match_date_label zs) (date_label e) = None \<or>
         re_search (match_time_label zs) (time_label e) = None"
  then show "parse_entry_datetime_parts zs e = None"
    by (auto simp: parse_entry_datetime_parts_def split: option.splits)
qed

lemmas eval_defs =
  example_entry_def label_5_march_def label_7_june_def ascii_def
  match_datetime_local_def match_date_label_def date_label_month_def date_label_day_def
  date_label_tail_def match_time_label_def time_label_hour_def digits_def isdecimal_def
  isspace_def int_of_digits_def format_0d_def

lemma str_of_nat_digit: "n < 10 \<Longrightarrow> str_of_nat n = [48 + n]"
  by (simp add: str_of_nat.simps [of n])

text \<open>One entry for each of the three cases: both tiers present and disagreeing, the
  labels alone (the example of the specification), and nothing to resolve from.\<close>

theorem date_resolution_two_tiers_witness:
  "(match_datetime_local []
      (datetime_local (example_entry (ascii ''a1'') (ascii ''2026-03-05 08:30'') label_7_june (ascii ''9:15'')))
      = Some (ascii ''2026'', ascii ''03'', ascii ''05'', ascii ''08:30'') \<and>
    parse_entry_datetime_parts []
      (example_entry (ascii ''a1'') (ascii ''2026-03-05 08:30'') label_7_june (ascii ''9:15''))
      = Some (2026, 3, 5, ascii ''08:30'')) \<and>
   (match_datetime_local [] (datetime_local (example_entry (ascii ''a2'') [] label_5_march (ascii ''8:30''))) = None \<and>
    re_search (match_date_label []) (date_label (example_entry (ascii ''a2'') [] label_5_march (ascii ''8:30'')))
      = Some (ascii ''3'', ascii ''5'', ascii ''2026'') \<and>
    re_search (match_time_label []) (time_label (example_entry (ascii ''a2'') [] label_5_march (ascii ''8:30'')))
      = Some (ascii ''8'', ascii ''30'') \<and>
    parse_entry_datetime_parts [] (example_entry (ascii ''a2'') [] label_5_march (ascii ''8:30''))
      = Some (2026, 3, 5, ascii ''08:30'')) \<and>
   (match_datetime_local [] (datetime_local (example_entry (ascii ''a3'') [] [] [])) = None \<and>
    re_search (match_date_label []) (date_label (example_entry (ascii ''a3'') [] [] [])) = None \<and>
    parse_entry_datetime_parts [] (example_entry (ascii ''a3'') [] [] []) = None)"
proof -
  let ?e1 = "example_entry (ascii ''a1'') (ascii ''2026-03-05 08:30'') label_7_june (ascii ''9:15'')"
  let ?e2 = "example_entry (ascii ''a2'') [] label_5_march (ascii ''8:30'')"
  let ?e3 = "example_entry (ascii ''a3'') [] [] []"
  have m1: "match_datetime_local [] (datetime_local ?e1)
      = Some (ascii ''2026'', ascii ''03'', ascii ''05'', ascii ''08:30'')"
    by (simp add: eval_defs)
  have m2: "match_datetime_local [] (datetime_local ?e2) = None"
    by (simp add: eval_defs)
  have d2: "re_search (match_date_label []) (date_label ?e2) = Some (ascii ''3'', ascii ''5'', ascii ''2026'')"
    by (simp add: eval_defs)
  have t2: "re_search (match_time_label []) (time_label ?e2) = Some (ascii ''8'', ascii ''30'')"
    by (simp add: eval_defs)
  have m3: "match_datetime_local [] (datetime_local ?e3) = None"
    by (simp add: eval_defs)
  have d3: "re_search (match_date_label []) (date_label ?e3) = None"
    by (simp add: eval_defs)
  have v1: "int_of_digits [] (ascii ''2026'') = 2026 \<and> int_of_digits [] (ascii ''03'') = 3 \<and>
      int_of_digits [] (ascii ''05'') = 5 \<and> int_of_digits [] (ascii ''3'') = 3 \<and>
      int_of_digits [] (ascii ''5'') = 5 \<and> int_of_digits [] (ascii ''8'') = 8 \<and>
      int_of_digits [] (ascii ''30'') = 30"
    by (simp add: ascii_def int_of_digits_def)
  have f: "format_0d 2 8 = ascii ''08'' \<and> format_0d 2 30 = ascii ''30''"
    by (simp add: format_0d_def ascii_def str_of_nat_digit str_of_nat.simps [of 30])
  from date_resolution_two_tiers [of "[]" ?e1, THEN conjunct1, rule_format, OF m1]
  have r1: "parse_entry_datetime_parts [] ?e1 = Some (2026, 3, 5, ascii ''08:30'')"
    by (simp add: v1)
  from date_resolution_two_tiers [of "[]" ?e2, THEN conjunct2, THEN conjunct1, rule_format, OF m2 d2 t2]
  have r2: "parse_entry_datetime_parts [] ?e2 = Some (2026, 3, 5, ascii ''08:30'')"
    by (simp add: v1 f) (simp add: ascii_def)
  from date_resolution_two_tiers [of "[]" ?e3, THEN conjunct2, THEN conjunct2, rule_format, OF m3 disjI1, OF d3]
  have r3: "parse_entry_datetime_parts [] ?e3 = None" .
  from m1 m2 d2 t2 m3 d3 r1 r2 r3 show ?thesis
    by blast
qed

text \<open>
  \<^bold>\<open>C10.\<close>  An entry whose \<open>datetime_local\<close> is not empty and does not match the pattern
  of tier 1 is not given up: its date is the tier-2 value, read from \<open>date_label\<close> and
  \<open>time_label\<close> (year, month and day from the label's groups, hour and minute padded to
  two digits) whenever both label patterns are found, and unresolved otherwise; it is the
  date of the same entry with \<open>datetime_local\<close> empty.
\<close>

theorem malformed_datetime_local_falls_back:
  assumes "datetime_local e \<noteq> []"
    and "match_datetime_local zs (datetime_local e) = None"
  shows "parse_entry_datetime_parts zs e =
           (case (re_search (match_date_label zs) (date_label e),
                  re_search (match_time_label zs) (time_label e)) of
              (Some (d1, d2, d3), Some (t1, t2)) \<Rightarrow>
                Some (int_of_digits zs d3, int_of_digits zs d1, int_of_digits zs d2,
                      format_0d 2 (int_of_digits zs t1) @ [58] @ format_0d 2 (int_of_digits zs t2))
            | _ \<Rightarrow> None) \<and>
         parse_entry_datetime_parts zs e =
           parse_entry_datetime_parts zs (e\<lparr>datetime_local := []\<rparr>) \<and>
         (re_search (match_date_label zs) (date_label e) \<noteq> None \<and>
          re_search (match_time_label zs) (time_label e) \<noteq> None \<longrightarrow>
            parse_entry_datetime_parts zs e \<noteq> None)"
  using assms
  by (auto simp: parse_entry_datetime_parts_def split: option.splits)

theorem malformed_datetime_local_falls_back_witness:
  "datetime_local (example_entry (ascii ''a4'') (ascii ''2026/03/05'') label_5_march (ascii ''8:30'')) \<noteq> [] \<and>
   match_datetime_local []
     (datetime_local (example_entry (ascii ''a4'') (ascii ''2026/03/05'') label_5_march (ascii ''8:30''))) = None \<and>
   parse_entry_datetime_parts []
     (example_entry (ascii ''a4'') (ascii ''2026/03/05'') label_5_march (ascii ''8:30'')) =
   Some (2026, 3, 5, ascii ''08:30'')"
proof -
  let ?e = "example_entry (ascii ''a4'') (ascii ''2026/03/05'') label_5_march (ascii ''8:30'')"
  have n: "datetime_local ?e \<noteq> []"
    by (simp add: example_entry_def ascii_def)
  have m: "match_datetime_local [] (datetime_local ?e) = None"
    by (simp add: eval_defs)
  have d: "re_search (match_date_label []) (date_label ?e) = Some (ascii ''3'', ascii ''5'', ascii ''2026'')"
    by (simp add: eval_defs)
  have t: "re_search (match_time_label []) (time_label ?e) = Some (ascii ''8'', ascii ''30'')"
    by (simp add: eval_defs)
  have v: "int_of_digits [] (ascii ''2026'') = 2026 \<and> int_of_digits [] (ascii ''3'') = 3 \<and>
      int_of_digits [] (ascii ''5'') = 5 \<and> int_of_digits [] (ascii ''8'') = 8 \<and>
      int_of_digits [] (ascii ''30'') = 30"
    by (simp add: ascii_def int_of_digits_def)
  have f: "format_0d 2 8 = [48, 56] \<and> format_0d 2 30 = [51, 48]"
    by (simp add: format_0d_def str_of_nat_digit str_of_nat.simps [of 30])
  from malformed_datetime_local_falls_back [OF n m, THEN conjunct1]
  have "parse_entry_datetime_parts [] ?e = Some (2026, 3, 5, ascii ''08:30'')"
    by (simp add: d t v f) (simp add: ascii_def)
  with n m show ?thesis
    by (simp only: simp_thms)
qed

section \<open>The fetch loop (C1, C4, C5)\<close>

lemma scrape_loop_step:
  assumes "page_ok session (page_url posts_url page)"
    and "url_entries B J session (page_url posts_url page) \<noteq> []"
    and "\<not> max_pages_reached mp page"
  shows "scrape_loop B J session posts_url mp page acc req =
         scrape_loop B J session posts_url mp (Suc page)
           (acc @ url_entries B J session (page_url posts_url page)) (req @ [page_url posts_url page])"
  using assms
  by (subst scrape_loop.simps) (auto simp: page_ok_def url_entries_def split: option.splits)

lemma scrape_loop_stop:
  assumes "page_ok session (page_url posts_url page)"
    and "url_entries B J session (page_url posts_url page) = [] \<or> max_pages_reached mp page"
  shows "scrape_loop B J session posts_url mp page acc req =
         Some (Inr (acc @ url_entries B J session (page_url posts_url page)), req @ [page_url posts_url page])"
  using assms
  by (subst scrape_loop.simps) (auto simp: page_ok_def url_entries_def split: option.splits)

lemma scrape_loop_expired:
  assumes "page_expired session (page_url posts_url page)"
  shows "scrape_loop B J session posts_url mp page acc req =
         Some (Inl (SessionExpired page), req @ [page_url posts_url page])"
  using assms
  by (subst scrape_loop.simps) (auto simp: page_expired_def split: option.splits)

lemma upt_conv_Cons_Suc: "page \<le> n \<Longrightarrow> [page..<Suc n] = page # [Suc page..<Suc n]"
  by (simp add: upt_conv_Cons)

lemma scrape_loop_prefix:
  assumes "\<forall>k. page \<le> k \<and> k < n \<longrightarrow>
             page_ok session (page_url posts_url k) \<and>
             url_entries B J session (page_url posts_url k) \<noteq> [] \<and>
             \<not> max_pages_reached mp k"
    and "page \<le> n"
  shows "scrape_loop B J session posts_url mp page acc req =
         scrape_loop B J session posts_url mp n
           (acc @ concat (map (\<lambda>k. url_entries B J session (page_url posts_url k)) [page..<n]))
           (req @ map (page_url posts_url) [page..<n])"
  using assms
proof (induction "n - page" arbitrary: page acc req)
  case 0
  then show ?case by simp
next
  case (Suc d)
  then have lt: "page < n" by simp
  with Suc.prems have ok: "page_ok session (page_url posts_url page)"
      "url_entries B J session (page_url posts_url page) \<noteq> []" "\<not> max_pages_reached mp page"
    by auto
  have "d = n - Suc page" using Suc.hyps(2) by simp
  moreover have "\<forall>k. Suc page \<le> k \<and> k < n \<longrightarrow>
             page_ok session (page_url posts_url k) \<and>
             url_entries B J session (page_url posts_url k) \<noteq> [] \<and>
             \<not> max_pages_reached mp k"
    using Suc.prems(1) by simp
  moreover have "Suc page \<le> n" using lt by simp
  ultimately have "scrape_loop B J session posts_url mp (Suc page)
        (acc @ url_entries B J session (page_url posts_url page)) (req @ [page_url posts_url page]) =
      scrape_loop B J session posts_url mp n
        ((acc @ url_entries B J session (page_url posts_url page)) @
          concat (map (\<lambda>k. url_entries B J session (page_url posts_url k)) [Suc page..<n]))
        ((req @ [page_url posts_url page]) @ map (page_url posts_url) [Suc page..<n])"
    by (rule Suc.hyps(1))
  with scrape_loop_step [OF ok] lt show ?case
    by (simp add: upt_conv_Cons)
qed

lemma scrape_loop_returns_aux:
  assumes "scrape_loop B J session posts_url mp page acc req = Some y"
  shows "\<forall>out requested. y = (Inr out, requested) \<longrightarrow>
           (\<exists>us. requested = req @ us \<and> out = acc @ concat (map (url_entries B J session) us))"
proof (rule scrape_loop.raw_induct
    [where P = "\<lambda>B J session posts_url mp page acc req y.
        \<forall>out requested. y = (Inr out, requested) \<longrightarrow>
           (\<exists>us. requested = req @ us \<and> out = acc @ concat (map (url_entries B J session) us))",
     OF _ assms], goal_cases)
  case (1 scrape_loop' B J session posts_url mp page acc req y)
  show ?case
  proof (intro allI impI)
    fix out requested
    assume y: "y = (Inr out, requested)"
    show "\<exists>us. requested = req @ us \<and> out = acc @ concat (map (url_entries B J session) us)"
    proof (cases "session (page_url posts_url page)")
      case None
      with 1(2) y show ?thesis by simp
    next
      case (Some html)
      let ?es = "extract_entries_from_page B J html"
      have ue: "url_entries B J session (page_url posts_url page) = ?es"
        by (simp add: url_entries_def Some)
      show ?thesis
      proof (cases "is_login_page html \<or> ?es = [] \<or> max_pages_reached mp page")
        case True
        with 1(2) Some ue y show ?thesis
          by (auto split: if_splits)
      next
        case False
        with 1(2) Some y have "scrape_loop' B J session posts_url mp (page + 1) (acc @ ?es)
            (req @ [page_url posts_url page]) = Some (Inr out, requested)"
          by simp
        from 1(1) [OF this, rule_format, OF refl] obtain us where
          "requested = (req @ [page_url posts_url page]) @ us"
          "out = (acc @ ?es) @ concat (map (url_entries B J session) us)"
          by blast
        then have "requested = req @ (page_url posts_url page # us) \<and>
            out = acc @ concat (map (url_entries B J session) (page_url posts_url page # us))"
          by (simp add: ue)
        then show ?thesis by blast
      qed
    qed
  qed
qed


lemma dedup_loop_acc: "dedup_loop es seen acc = acc @ dedup_loop es seen []"
proof (induction es arbitrary: seen acc)
  case Nil
  show ?case by simp
next
  case (Cons e es)
  show ?case
  proof (cases "entry_id e \<in> seen")
    case True
    with Cons [of seen acc] show ?thesis by simp
  next
    case False
    with Cons [of "insert (entry_id e) seen" "acc @ [e]"] Cons [of "insert (entry_id e) seen" "[e]"]
    show ?thesis by simp
  qed
qed

lemma dedup_loop_Cons:
  "dedup_loop (e # es) seen [] =
     (if entry_id e \<in> seen then dedup_loop es seen []
      else e # dedup_loop es (insert (entry_id e) seen) [])"
  using dedup_loop_acc [of es "insert (entry_id e) seen" "[e]"] by simp

lemma dedup_loop_ids:
  "entry_id ` set (dedup_loop es seen []) = entry_id ` set es - seen"
  by (induction es arbitrary: seen) (auto simp: dedup_loop_Cons simp del: dedup_loop.simps(2))

lemma dedup_loop_distinct: "distinct (map entry_id (dedup_loop es seen []))"
proof (induction es arbitrary: seen)
  case Nil
  show ?case by simp
next
  case (Cons e es)
  have "entry_id e \<notin> entry_id ` set (dedup_loop es (insert (entry_id e) seen) [])"
    by (simp add: dedup_loop_ids)
  with Cons show ?case
    by (simp add: dedup_loop_Cons del: dedup_loop.simps(2))
qed

lemma dedup_loop_subseq: "subseq (dedup_loop es seen []) es"
  by (induction es arbitrary: seen) (auto simp: dedup_loop_Cons simp del: dedup_loop.simps(2))

lemma dedup_loop_first:
  "e \<in> set (dedup_loop es seen []) \<Longrightarrow> find (\<lambda>x. entry_id x = entry_id e) es = Some e"
proof (induction es arbitrary: seen)
  case Nil
  then show ?case by simp
next
  case (Cons a es)
  show ?case
  proof (cases "entry_id a \<in> seen")
    case True
    with Cons.prems have "e \<in> set (dedup_loop es seen [])"
      by (simp add: dedup_loop_Cons del: dedup_loop.simps(2))
    then have "entry_id e \<in> entry_id ` set es - seen"
      using dedup_loop_ids [of es seen] by blast
    with True have "entry_id a \<noteq> entry_id e" by auto
    with Cons.IH [OF \<open>e \<in> set (dedup_loop es seen [])\<close>] show ?thesis by simp
  next
    case False
    with Cons.prems have "e = a \<or> e \<in> set (dedup_loop es (insert (entry_id a) seen) [])"
      by (simp add: dedup_loop_Cons del: dedup_loop.simps(2))
    then show ?thesis
    proof
      assume "e = a"
      then show ?thesis by simp
    next
      assume in_rest: "e \<in> set (dedup_loop es (insert (entry_id a) seen) [])"
      then have "entry_id e \<in> entry_id ` set es - insert (entry_id a) seen"
        using dedup_loop_ids [of es "insert (entry_id a) seen"] by blast
      then have "entry_id a \<noteq> entry_id e" by auto
      with Cons.IH [OF in_rest] show ?thesis by simp
    qed
  qed
qed

lemmas dom_defs =
  extract_entries_from_page_def select_one_def sel_posts_list_def sel_meta_timeago_def
  sel_time_hours_def sel_h4_a_def sel_line_comment_def sel_line_location_def
  child_of_div_line_def entry_of_li_def get_or_empty_def startswith_def match_entry_id_def
  isalnum_ascii_def BASE_def example_li_def example_document_def example_soup_def

lemma example_extract_p1:
  "extract_entries_from_page example_soup (@) (ascii ''p1'') =
     [example_entry (ascii ''a1'') [] [] [], example_entry (ascii ''a2'') [] [] []]"
  by (simp add: dom_defs example_entry_def ascii_def)

lemma example_extract_p2:
  "extract_entries_from_page example_soup (@) (ascii ''p2'') =
     [example_entry (ascii ''a2'') [] [] [], example_entry (ascii ''a3'') [] [] []]"
  by (simp add: dom_defs example_entry_def ascii_def)

lemma example_extract_p3: "extract_entries_from_page example_soup (@) (ascii ''p3'') = []"
  by (simp add: dom_defs example_entry_def ascii_def)

lemma example_urls:
  "page_url (ascii ''u'') 1 = ascii ''u'' \<and> page_url (ascii ''u'') 2 = ascii ''u?page=2'' \<and>
   page_url (ascii ''u'') 3 = ascii ''u?page=3''"
  by (simp add: page_url_def ascii_def str_of_nat_digit)

lemma not_login_short: "length html < 7 \<Longrightarrow> \<not> is_login_page html"
proof -
  have "length t < length n \<Longrightarrow> \<not> contains t n" for t n :: pystr
    by (induction t) auto
  then show "length html < 7 \<Longrightarrow> \<not> is_login_page html"
    by (simp add: is_login_page_def)
qed

lemma login_html_detected: "is_login_page login_html"
  by (simp add: is_login_page_def login_html_def ascii_def)


lemma example_urls_Suc:
  "page_url (ascii ''u'') (Suc 0) = ascii ''u'' \<and>
   page_url (ascii ''u'') (Suc (Suc 0)) = ascii ''u?page=2'' \<and>
   page_url (ascii ''u'') (Suc (Suc (Suc 0))) = ascii ''u?page=3''"
  by (simp add: page_url_def ascii_def str_of_nat_digit)

lemma example_session_pages:
  "page_ok example_session (ascii ''u'') \<and>
   page_ok example_session (ascii ''u?page=2'') \<and>
   page_ok example_session (ascii ''u?page=3'') \<and>
   url_entries example_soup (@) example_session (ascii ''u'') =
     [example_entry (ascii ''a1'') [] [] [], example_entry (ascii ''a2'') [] [] []] \<and>
   url_entries example_soup (@) example_session (ascii ''u?page=2'') =
     [example_entry (ascii ''a2'') [] [] [], example_entry (ascii ''a3'') [] [] []] \<and>
   url_entries example_soup (@) example_session (ascii ''u?page=3'') = []"
proof -
  have s: "example_session (ascii ''u'') = Some (ascii ''p1'') \<and>
      example_session (ascii ''u?page=2'') = Some (ascii ''p2'') \<and>
      example_session (ascii ''u?page=3'') = Some (ascii ''p3'')"
    by (simp add: example_session_def ascii_def)
  have n: "\<not> is_login_page (ascii ''p1'') \<and> \<not> is_login_page (ascii ''p2'') \<and>
      \<not> is_login_page (ascii ''p3'')"
    by (simp add: not_login_short ascii_def)
  from s n show ?thesis
    by (simp add: example_urls example_urls_Suc page_ok_def url_entries_def example_extract_p1
        example_extract_p2 example_extract_p3)
qed

lemma expired_session_pages:
  "page_ok expired_session (ascii ''u'') \<and>
   url_entries example_soup (@) expired_session (ascii ''u'') \<noteq> [] \<and>
   page_expired expired_session (ascii ''u?page=2'')"
proof -
  have s: "expired_session (ascii ''u'') = Some (ascii ''p1'') \<and>
      expired_session (ascii ''u?page=2'') = Some login_html"
    by (simp add: expired_session_def ascii_def)
  have n: "\<not> is_login_page (ascii ''p1'')"
    by (simp add: not_login_short ascii_def)
  from s n show ?thesis
    by (simp add: example_urls example_urls_Suc page_ok_def page_expired_def url_entries_def
        example_extract_p1 login_html_detected)
qed

lemma example_run:
  "scrape_all example_soup (@) example_session (ascii ''u'') None =
     Some (Inr [example_entry (ascii ''a1'') [] [] [], example_entry (ascii ''a2'') [] [] [],
                example_entry (ascii ''a3'') [] [] []],
           [ascii ''u'', ascii ''u?page=2'', ascii ''u?page=3''])"
proof -
  note p = example_session_pages
  have m: "\<not> max_pages_reached None k" for k
    by (simp add: max_pages_reached_def)
  have "scrape_loop example_soup (@) example_session (ascii ''u'') None 1 [] [] =
      Some (Inr [example_entry (ascii ''a1'') [] [] [], example_entry (ascii ''a2'') [] [] [],
                 example_entry (ascii ''a2'') [] [] [], example_entry (ascii ''a3'') [] [] []],
            [ascii ''u'', ascii ''u?page=2'', ascii ''u?page=3''])"
    using scrape_loop_step [of example_session "ascii ''u''" 1 example_soup "(@)" None "[]" "[]"]
      scrape_loop_step [of example_session "ascii ''u''" 2 example_soup "(@)" None
        "[example_entry (ascii ''a1'') [] [] [], example_entry (ascii ''a2'') [] [] []]" "[ascii ''u'']"]
      scrape_loop_stop [of example_session "ascii ''u''" 3 example_soup "(@)" None
        "[example_entry (ascii ''a1'') [] [] [], example_entry (ascii ''a2'') [] [] [],
          example_entry (ascii ''a2'') [] [] [], example_entry (ascii ''a3'') [] [] []]"
        "[ascii ''u'', ascii ''u?page=2'']"]
    by (simp add: p m example_urls example_urls_Suc eval_nat_numeral)
  then show ?thesis
    by (simp add: scrape_all_def example_entry_def ascii_def)
qed

lemma dedup_loop_positions:
  "dedup_loop es seen [] =
     map (\<lambda>i. es ! i)
       (filter (\<lambda>i. entry_id (es ! i) \<notin> seen \<union> entry_id ` set (take i es)) [0..<length es])"
proof (induction es arbitrary: seen)
  case Nil
  show ?case by simp
next
  case (Cons e es)
  have upt: "[0..<length (e # es)] = 0 # map Suc [0..<length es]"
    by (simp add: upt_conv_Cons map_Suc_upt del: upt_Suc)
  have rest: "map (\<lambda>i. (e # es) ! i)
        (filter (\<lambda>i. entry_id ((e # es) ! i) \<notin> seen \<union> entry_id ` set (take i (e # es)))
           (map Suc [0..<length es])) =
      map (\<lambda>i. es ! i)
        (filter (\<lambda>i. entry_id (es ! i) \<notin> insert (entry_id e) seen \<union> entry_id ` set (take i es))
           [0..<length es])"
    by (simp add: filter_map comp_def conj_commute conj_left_commute)
  show ?case
  proof (cases "entry_id e \<in> seen")
    case True
    then have "insert (entry_id e) seen = seen" by auto
    with True Cons [of seen] rest show ?thesis
      unfolding upt by (simp add: dedup_loop_Cons del: dedup_loop.simps(2) upt_Suc)
  next
    case False
    with Cons [of "insert (entry_id e) seen"] rest show ?thesis
      unfolding upt by (simp add: dedup_loop_Cons del: dedup_loop.simps(2) upt_Suc)
  qed
qed

lemma dedup_loop_first_occurrences: "dedup_loop es {} [] = first_occurrences es"
  by (simp add: dedup_loop_positions first_occurrences_def)


lemma scrape_all_total:
  assumes "1 \<le> n"
    and "\<forall>k. 1 \<le> k \<and> k < n \<longrightarrow>
           page_ok session (page_url posts_url k) \<and>
           url_entries B J session (page_url posts_url k) \<noteq> [] \<and>
           \<not> max_pages_reached mp k"
    and "page_ok session (page_url posts_url n)"
    and "url_entries B J session (page_url posts_url n) = [] \<or> max_pages_reached mp n"
  shows "scrape_all B J session posts_url mp =
           Some (Inr (dedup_loop
                        (concat (map (url_entries B J session) (map (page_url posts_url) [1..<Suc n])))
                        {} []),
                 map (page_url posts_url) [1..<Suc n])"
proof -
  have "scrape_loop B J session posts_url mp 1 [] [] =
        scrape_loop B J session posts_url mp n
           ([] @ concat (map (\<lambda>k. url_entries B J session (page_url posts_url k)) [1..<n]))
           ([] @ map (page_url posts_url) [1..<n])"
    using assms(2,1) by (rule scrape_loop_prefix)
  also have "\<dots> = Some (Inr (([] @ concat (map (\<lambda>k. url_entries B J session (page_url posts_url k)) [1..<n]))
                        @ url_entries B J session (page_url posts_url n)),
                     ([] @ map (page_url posts_url) [1..<n]) @ [page_url posts_url n])"
    using assms(3,4) by (rule scrape_loop_stop)
  finally have "scrape_loop B J session posts_url mp 1 [] [] =
        Some (Inr (concat (map (\<lambda>k. url_entries B J session (page_url posts_url k)) [1..<Suc n])),
              map (page_url posts_url) [1..<Suc n])"
    using assms(1) by simp
  then show ?thesis
    by (simp add: scrape_all_def comp_def)
qed

lemma subseq_first_occurrences: "subseq (first_occurrences es) es"
  using dedup_loop_subseq [of es "{}"] by (simp add: dedup_loop_first_occurrences)

text \<open>
  \<^bold>\<open>C1.\<close>  Let the pages \<open>1, \<dots>, n\<close> be fetched, page \<open>n\<close> the first that is empty or
  at which \<open>max_pages\<close> is reached.  Then \<open>scrape_all\<close> returns, and what it returns
  is the list of first occurrences in the concatenation of the extractions of these
  pages: the entries at the positions before which their id does not occur, in the
  order of the concatenation.  Its ids are distinct and are all the ids extracted.
  The same holds of whatever a run returns: the result is the list of first occurrences
  in the concatenated extractions of the pages it requested.
\<close>

theorem scrape_all_deduplicates:
  assumes "1 \<le> n"
    and "\<forall>k. 1 \<le> k \<and> k < n \<longrightarrow>
           page_ok session (page_url posts_url k) \<and>
           url_entries B J session (page_url posts_url k) \<noteq> [] \<and>
           \<not> max_pages_reached mp k"
    and "page_ok session (page_url posts_url n)"
    and "url_entries B J session (page_url posts_url n) = [] \<or> max_pages_reached mp n"
  shows "scrape_all B J session posts_url mp =
           Some (Inr (first_occurrences
                        (concat (map (url_entries B J session) (map (page_url posts_url) [1..<Suc n])))),
                 map (page_url posts_url) [1..<Suc n]) \<and>
         distinct (map entry_id (first_occurrences
            (concat (map (url_entries B J session) (map (page_url posts_url) [1..<Suc n]))))) \<and>
         entry_id ` set (first_occurrences
            (concat (map (url_entries B J session) (map (page_url posts_url) [1..<Suc n])))) =
         entry_id ` set (concat (map (url_entries B J session) (map (page_url posts_url) [1..<Suc n]))) \<and>
         (\<forall>out requested.
            scrape_all B J session posts_url mp = Some (Inr out, requested) \<longrightarrow>
            out = first_occurrences (concat (map (url_entries B J session) requested)))"
proof -
  let ?all = "concat (map (url_entries B J session) (map (page_url posts_url) [1..<Suc n]))"
  have run: "scrape_all B J session posts_url mp =
      Some (Inr (first_occurrences ?all), map (page_url posts_url) [1..<Suc n])"
    using scrape_all_total [OF assms] by (simp only: dedup_loop_first_occurrences)
  have d: "distinct (map entry_id (first_occurrences ?all))"
    using dedup_loop_distinct [of ?all "{}"] by (simp only: dedup_loop_first_occurrences)
  have i: "entry_id ` set (first_occurrences ?all) = entry_id ` set ?all"
    using dedup_loop_ids [of ?all "{}"] by (simp add: dedup_loop_first_occurrences)
  have any: "\<forall>out requested.
      scrape_all B J session posts_url mp = Some (Inr out, requested) \<longrightarrow>
      out = first_occurrences (concat (map (url_entries B J session) requested))"
  proof (intro allI impI)
    fix out requested
    assume "scrape_all B J session posts_url mp = Some (Inr out, requested)"
    then obtain all_entries where
      loop: "scrape_loop B J session posts_url mp 1 [] [] = Some (Inr all_entries, requested)"
      and out: "out = dedup_loop all_entries {} []"
      by (auto simp: scrape_all_def split: option.splits sum.splits prod.splits)
    from scrape_loop_returns_aux [OF loop] have
      "all_entries = concat (map (url_entries B J session) requested)"
      by simp
    with out show "out = first_occurrences (concat (map (url_entries B J session) requested))"
      by (simp add: dedup_loop_first_occurrences)
  qed
  from run d i any show ?thesis by blast
qed

theorem scrape_all_deduplicates_witness:
  "page_ok example_session (page_url (ascii ''u'') 1) \<and>
   url_entries example_soup (@) example_session (page_url (ascii ''u'') 1) \<noteq> [] \<and>
   page_ok example_session (page_url (ascii ''u'') 2) \<and>
   url_entries example_soup (@) example_session (page_url (ascii ''u'') 2) \<noteq> [] \<and>
   page_ok example_session (page_url (ascii ''u'') 3) \<and>
   url_entries example_soup (@) example_session (page_url (ascii ''u'') 3) = [] \<and>
   concat (map (url_entries example_soup (@) example_session)
             (map (page_url (ascii ''u'')) [1..<Suc 3])) =
     [example_entry (ascii ''a1'') [] [] [], example_entry (ascii ''a2'') [] [] [],
      example_entry (ascii ''a2'') [] [] [], example_entry (ascii ''a3'') [] [] []] \<and>
   first_occurrences
     [example_entry (ascii ''a1'') [] [] [], example_entry (ascii ''a2'') [] [] [],
      example_entry (ascii ''a2'') [] [] [], example_entry (ascii ''a3'') [] [] []] =
     [example_entry (ascii ''a1'') [] [] [], example_entry (ascii ''a2'') [] [] [],
      example_entry (ascii ''a3'') [] [] []] \<and>
   scrape_all example_soup (@) example_session (ascii ''u'') None =
     Some (Inr [example_entry (ascii ''a1'') [] [] [], example_entry (ascii ''a2'') [] [] [],
                example_entry (ascii ''a3'') [] [] []],
           [ascii ''u'', ascii ''u?page=2'', ascii ''u?page=3''])"
proof -
  note p = example_session_pages
  note u = example_urls example_urls_Suc
  have pages: "page_ok example_session (page_url (ascii ''u'') 1) \<and>
     url_entries example_soup (@) example_session (page_url (ascii ''u'') 1) \<noteq> [] \<and>
     page_ok example_session (page_url (ascii ''u'') 2) \<and>
     url_entries example_soup (@) example_session (page_url (ascii ''u'') 2) \<noteq> [] \<and>
     page_ok example_session (page_url (ascii ''u'') 3) \<and>
     url_entries example_soup (@) example_session (page_url (ascii ''u'') 3) = []"
    by (simp add: p u)
  have before: "\<forall>k. 1 \<le> k \<and> k < 3 \<longrightarrow>
      page_ok example_session (page_url (ascii ''u'') k) \<and>
      url_entries example_soup (@) example_session (page_url (ascii ''u'') k) \<noteq> [] \<and>
      \<not> max_pages_reached None k"
  proof (intro allI impI)
    fix k :: nat
    assume "1 \<le> k \<and> k < 3"
    then have "k = 1 \<or> k = 2" by arith
    with pages show "page_ok example_session (page_url (ascii ''u'') k) \<and>
      url_entries example_soup (@) example_session (page_url (ascii ''u'') k) \<noteq> [] \<and>
      \<not> max_pages_reached None k"
      by (auto simp: max_pages_reached_def)
  qed
  have l: "map (page_url (ascii ''u'')) [1..<Suc 3] = [ascii ''u'', ascii ''u?page=2'', ascii ''u?page=3'']"
    by (simp add: upt_conv_Cons u)
  have all: "concat (map (url_entries example_soup (@) example_session)
             (map (page_url (ascii ''u'')) [1..<Suc 3])) =
     [example_entry (ascii ''a1'') [] [] [], example_entry (ascii ''a2'') [] [] [],
      example_entry (ascii ''a2'') [] [] [], example_entry (ascii ''a3'') [] [] []]"
    unfolding l by (simp add: p)
  have fo: "first_occurrences
     [example_entry (ascii ''a1'') [] [] [], example_entry (ascii ''a2'') [] [] [],
      example_entry (ascii ''a2'') [] [] [], example_entry (ascii ''a3'') [] [] []] =
     [example_entry (ascii ''a1'') [] [] [], example_entry (ascii ''a2'') [] [] [],
      example_entry (ascii ''a3'') [] [] []]"
    by (simp add: first_occurrences_def upt_conv_Cons example_entry_def ascii_def)
  have le: "(1::nat) \<le> 3" by simp
  from pages have ok3: "page_ok example_session (page_url (ascii ''u'') 3)"
    and stop3: "url_entries example_soup (@) example_session (page_url (ascii ''u'') 3) = [] \<or>
      max_pages_reached None 3"
    by blast+
  note t = scrape_all_deduplicates [of 3 example_session "ascii ''u''" example_soup "(@)" None,
      OF le before ok3 stop3, THEN conjunct1]
  have run: "scrape_all example_soup (@) example_session (ascii ''u'') None =
     Some (Inr [example_entry (ascii ''a1'') [] [] [], example_entry (ascii ''a2'') [] [] [],
                example_entry (ascii ''a3'') [] [] []],
           [ascii ''u'', ascii ''u?page=2'', ascii ''u?page=3''])"
    using t [unfolded all, unfolded fo, unfolded l] .
  from pages all fo run show ?thesis
    by (simp only: simp_thms)
qed

text \<open>
  \<^bold>\<open>C5.\<close>  Page 1 is requested at the list URL itself and page \<open>k > 1\<close> at that URL
  followed by \<open>?page=k\<close>.  Let page \<open>n\<close> be the first page whose extraction is empty
  or at which \<open>max_pages\<close> is reached, every page up to it being fetched and passing
  the login check.  Then the loop ends there without an error, having requested the
  pages \<open>1, \<dots>, n\<close> in this order and nothing else.
\<close>

theorem scrape_all_page_requests:
  assumes "1 \<le> n"
    and "\<forall>k. 1 \<le> k \<and> k < n \<longrightarrow>
           page_ok session (page_url posts_url k) \<and>
           url_entries B J session (page_url posts_url k) \<noteq> [] \<and>
           \<not> max_pages_reached mp k"
    and "page_ok session (page_url posts_url n)"
    and "url_entries B J session (page_url posts_url n) = [] \<or> max_pages_reached mp n"
  shows "page_url posts_url 1 = posts_url \<and>
         (\<forall>k. 1 < k \<longrightarrow> page_url posts_url k = posts_url @ ascii ''?page='' @ str_of_nat k) \<and>
         scrape_all B J session posts_url mp =
           Some (Inr (dedup_loop
                        (concat (map (\<lambda>k. url_entries B J session (page_url posts_url k)) [1..<Suc n]))
                        {} []),
                 map (page_url posts_url) [1..<Suc n])"
proof -
  have "scrape_loop B J session posts_url mp 1 [] [] =
        scrape_loop B J session posts_url mp n
           ([] @ concat (map (\<lambda>k. url_entries B J session (page_url posts_url k)) [1..<n]))
           ([] @ map (page_url posts_url) [1..<n])"
    using assms(2,1) by (rule scrape_loop_prefix)
  also have "\<dots> = Some (Inr (([] @ concat (map (\<lambda>k. url_entries B J session (page_url posts_url k)) [1..<n]))
                        @ url_entries B J session (page_url posts_url n)),
                     ([] @ map (page_url posts_url) [1..<n]) @ [page_url posts_url n])"
    using assms(3,4) by (rule scrape_loop_stop)
  finally have "scrape_loop B J session posts_url mp 1 [] [] =
        Some (Inr (concat (map (\<lambda>k. url_entries B J session (page_url posts_url k)) [1..<Suc n])),
              map (page_url posts_url) [1..<Suc n])"
    using assms(1) by simp
  then have "scrape_all B J session posts_url mp =
           Some (Inr (dedup_loop
                        (concat (map (\<lambda>k. url_entries B J session (page_url posts_url k)) [1..<Suc n]))
                        {} []),
                 map (page_url posts_url) [1..<Suc n])"
    by (simp add: scrape_all_def)
  then show ?thesis
    by (simp add: page_url_def)
qed

theorem scrape_all_page_requests_witness:
  "page_ok example_session (page_url (ascii ''u'') 1) \<and>
   url_entries example_soup (@) example_session (page_url (ascii ''u'') 1) \<noteq> [] \<and>
   page_ok example_session (page_url (ascii ''u'') 2) \<and>
   url_entries example_soup (@) example_session (page_url (ascii ''u'') 2) \<noteq> [] \<and>
   page_ok example_session (page_url (ascii ''u'') 3) \<and>
   url_entries example_soup (@) example_session (page_url (ascii ''u'') 3) = [] \<and>
   (\<exists>out. scrape_all example_soup (@) example_session (ascii ''u'') None =
      Some (Inr out, [ascii ''u'', ascii ''u?page=2'', ascii ''u?page=3''])) \<and>
   (\<exists>out. scrape_all example_soup (@) example_session (ascii ''u'') (Some 1) =
      Some (Inr out, [ascii ''u'']))"
proof -
  note p = example_session_pages
  note u = example_urls example_urls_Suc
  have pages: "page_ok example_session (page_url (ascii ''u'') 1) \<and>
     url_entries example_soup (@) example_session (page_url (ascii ''u'') 1) \<noteq> [] \<and>
     page_ok example_session (page_url (ascii ''u'') 2) \<and>
     url_entries example_soup (@) example_session (page_url (ascii ''u'') 2) \<noteq> [] \<and>
     page_ok example_session (page_url (ascii ''u'') 3) \<and>
     url_entries example_soup (@) example_session (page_url (ascii ''u'') 3) = []"
    by (simp add: p u)
  have before: "\<forall>k. 1 \<le> k \<and> k < 3 \<longrightarrow>
      page_ok example_session (page_url (ascii ''u'') k) \<and>
      url_entries example_soup (@) example_session (page_url (ascii ''u'') k) \<noteq> [] \<and>
      \<not> max_pages_reached None k"
  proof (intro allI impI)
    fix k :: nat
    assume "1 \<le> k \<and> k < 3"
    then have "k = 1 \<or> k = 2" by arith
    with pages show "page_ok example_session (page_url (ascii ''u'') k) \<and>
      url_entries example_soup (@) example_session (page_url (ascii ''u'') k) \<noteq> [] \<and>
      \<not> max_pages_reached None k"
      by (auto simp: max_pages_reached_def)
  qed
  have l: "map (page_url (ascii ''u'')) [1..<Suc 3] = [ascii ''u'', ascii ''u?page=2'', ascii ''u?page=3'']"
    by (simp add: upt_conv_Cons u)
  have le: "(1::nat) \<le> 3" by simp
  from pages have ok3: "page_ok example_session (page_url (ascii ''u'') 3)"
    and stop3: "url_entries example_soup (@) example_session (page_url (ascii ''u'') 3) = [] \<or>
      max_pages_reached None 3"
    by blast+
  note t1 = scrape_all_page_requests [of 3 example_session "ascii ''u''" example_soup "(@)" None,
      OF le before ok3 stop3, THEN conjunct2, THEN conjunct2]
  from t1 have r1: "\<exists>out. scrape_all example_soup (@) example_session (ascii ''u'') None =
      Some (Inr out, [ascii ''u'', ascii ''u?page=2'', ascii ''u?page=3''])"
    unfolding l by blast
  have le1: "(1::nat) \<le> 1" by simp
  have none: "\<forall>k. 1 \<le> k \<and> k < 1 \<longrightarrow>
      page_ok example_session (page_url (ascii ''u'') k) \<and>
      url_entries example_soup (@) example_session (page_url (ascii ''u'') k) \<noteq> [] \<and>
      \<not> max_pages_reached (Some 1) k"
    by simp
  from pages have ok1: "page_ok example_session (page_url (ascii ''u'') 1)"
    by blast
  have stop1: "url_entries example_soup (@) example_session (page_url (ascii ''u'') 1) = [] \<or>
      max_pages_reached (Some 1) 1"
    by (simp add: max_pages_reached_def)
  have l1: "map (page_url (ascii ''u'')) [1..<Suc 1] = [ascii ''u'']"
    by (simp add: u)
  note t2 = scrape_all_page_requests [of 1 example_session "ascii ''u''" example_soup "(@)" "Some 1",
      OF le1 none ok1 stop1, THEN conjunct2, THEN conjunct2]
  from t2 have r2: "\<exists>out. scrape_all example_soup (@) example_session (ascii ''u'') (Some 1) =
      Some (Inr out, [ascii ''u''])"
    unfolding l1 by blast
  from pages r1 r2 show ?thesis
    by (simp only: simp_thms)
qed

text \<open>
  \<^bold>\<open>C4.\<close>  When the loop reaches page \<open>p\<close> and its content is the login page,
  \<open>scrape_all\<close> ends with the error that carries \<open>p\<close>, no page after \<open>p\<close> having
  been requested, and the run ends with that error and exit code 1 on the file system
  it started from: no output file has been written.
\<close>

theorem session_expiry_aborts:
  assumes "1 \<le> p"
    and "\<forall>k. 1 \<le> k \<and> k < p \<longrightarrow>
           page_ok session (page_url posts_url k) \<and>
           url_entries B J session (page_url posts_url k) \<noteq> [] \<and>
           \<not> max_pages_reached mp k"
    and "page_expired session (page_url posts_url p)"
  shows "scrape_all B J session posts_url mp =
           Some (Inl (SessionExpired p), map (page_url posts_url) [1..<Suc p]) \<and>
         main_export zs B J session posts_url mp split_md json_path txt_path md_root_dir fs =
           Some (fs, Inl (SessionExpired p), map (page_url posts_url) [1..<Suc p]) \<and>
         exit_code (Inl (SessionExpired p) :: error + entry list \<times> nat) = 1"
proof -
  have "scrape_loop B J session posts_url mp 1 [] [] =
        scrape_loop B J session posts_url mp p
           ([] @ concat (map (\<lambda>k. url_entries B J session (page_url posts_url k)) [1..<p]))
           ([] @ map (page_url posts_url) [1..<p])"
    using assms(2,1) by (rule scrape_loop_prefix)
  also have "\<dots> = Some (Inl (SessionExpired p), ([] @ map (page_url posts_url) [1..<p]) @ [page_url posts_url p])"
    using assms(3) by (rule scrape_loop_expired)
  finally have "scrape_loop B J session posts_url mp 1 [] [] =
        Some (Inl (SessionExpired p), map (page_url posts_url) [1..<Suc p])"
    using assms(1) by simp
  then have "scrape_all B J session posts_url mp =
        Some (Inl (SessionExpired p), map (page_url posts_url) [1..<Suc p])"
    by (simp add: scrape_all_def)
  then show ?thesis
    by (simp add: main_export_def exit_code_def)
qed

theorem session_expiry_aborts_witness:
  "page_ok expired_session (page_url (ascii ''u'') 1) \<and>
   url_entries example_soup (@) expired_session (page_url (ascii ''u'') 1) \<noteq> [] \<and>
   page_expired expired_session (page_url (ascii ''u'') 2) \<and>
   scrape_all example_soup (@) expired_session (ascii ''u'') None =
     Some (Inl (SessionExpired 2), [ascii ''u'', ascii ''u?page=2'']) \<and>
   main_export [] example_soup (@) expired_session (ascii ''u'') None True
       [ascii ''export.json''] [ascii ''export.txt''] [ascii ''export_md''] Map.empty =
     Some (Map.empty, Inl (SessionExpired 2), [ascii ''u'', ascii ''u?page=2''])"
proof -
  note u = example_urls example_urls_Suc
  have pages: "page_ok expired_session (page_url (ascii ''u'') 1) \<and>
     url_entries example_soup (@) expired_session (page_url (ascii ''u'') 1) \<noteq> [] \<and>
     page_expired expired_session (page_url (ascii ''u'') 2)"
    by (simp add: expired_session_pages u)
  have before: "\<forall>k. 1 \<le> k \<and> k < 2 \<longrightarrow>
      page_ok expired_session (page_url (ascii ''u'') k) \<and>
      url_entries example_soup (@) expired_session (page_url (ascii ''u'') k) \<noteq> [] \<and>
      \<not> max_pages_reached None k"
  proof (intro allI impI)
    fix k :: nat
    assume "1 \<le> k \<and> k < 2"
    then have "k = 1" by arith
    with pages show "page_ok expired_session (page_url (ascii ''u'') k) \<and>
      url_entries example_soup (@) expired_session (page_url (ascii ''u'') k) \<noteq> [] \<and>
      \<not> max_pages_reached None k"
      by (auto simp: max_pages_reached_def)
  qed
  have l: "map (page_url (ascii ''u'')) [1..<Suc 2] = [ascii ''u'', ascii ''u?page=2'']"
    by (simp add: upt_conv_Cons u)
  have le: "(1::nat) \<le> 2" by simp
  from pages have ex2: "page_expired expired_session (page_url (ascii ''u'') 2)"
    by blast
  note t = session_expiry_aborts [of 2 expired_session "ascii ''u''" example_soup "(@)" None
      "[]" True "[ascii ''export.json'']" "[ascii ''export.txt'']" "[ascii ''export_md'']" Map.empty,
      OF le before ex2]
  from t have "scrape_all example_soup (@) expired_session (ascii ''u'') None =
     Some (Inl (SessionExpired 2), [ascii ''u'', ascii ''u?page=2'']) \<and>
   main_export [] example_soup (@) expired_session (ascii ''u'') None True
       [ascii ''export.json''] [ascii ''export.txt''] [ascii ''export_md''] Map.empty =
     Some (Map.empty, Inl (SessionExpired 2), [ascii ''u'', ascii ''u?page=2''])"
    unfolding l by blast
  with pages show ?thesis
    by (simp only: simp_thms)
qed

end
